theory Spec2Isabelle
  imports Complex_Main "HOL-Library.AList"
begin

section \<open>Exceptions\<close>

text \<open>
  The exception classes that the modelled code raises or catches.  All of them derive from
  Python's \<open>Exception\<close>.  A computation that may raise returns a value of \<open>exn + 'a\<close>,
  with \<open>Inl\<close> for the raised exception.
\<close>

datatype exn =
    PageNotFoundError
  | InvalidUrlError
  | ContentExtractionError
  | RetryableError
  | NonRetryableError
  | ConnectionError
  | TimeoutError
  | KeyError
  | TypeError
  | ValueError
  | ZeroDivisionError
  | OSError
  | OverflowError

section \<open>models.py: PerformanceMetrics\<close>

record PerformanceMetrics =
  total_requests :: int
  successful_requests :: int
  failed_requests :: int
  cached_requests :: int
  total_processing_time :: real
  average_request_time :: real
  retry_attempts :: int

text \<open>The dataclass defaults: what \<open>PerformanceMetrics()\<close> constructs.\<close>

definition new_PerformanceMetrics :: PerformanceMetrics where
  "new_PerformanceMetrics =
     \<lparr>total_requests = 0, successful_requests = 0, failed_requests = 0, cached_requests = 0,
      total_processing_time = 0, average_request_time = 0, retry_attempts = 0\<rparr>"

text \<open>
  \<open>add_request\<close> mutates the counters in the order of the source and divides last; the
  division raises \<open>ZeroDivisionError\<close> when the incremented total is zero, leaving the
  counters already updated.
\<close>

definition add_request ::
  "bool \<Rightarrow> real \<Rightarrow> bool \<Rightarrow> PerformanceMetrics \<Rightarrow> (exn + unit) \<times> PerformanceMetrics" where
  "add_request success processing_time from_cache m =
     (let m = m\<lparr>total_requests := total_requests m + 1\<rparr>;
          m = m\<lparr>total_processing_time := total_processing_time m + processing_time\<rparr>;
          m = (if success then m\<lparr>successful_requests := successful_requests m + 1\<rparr>
               else m\<lparr>failed_requests := failed_requests m + 1\<rparr>);
          m = (if from_cache then m\<lparr>cached_requests := cached_requests m + 1\<rparr> else m)
      in if total_requests m = 0 then (Inl ZeroDivisionError, m)
         else (Inr (),
               m\<lparr>average_request_time :=
                    total_processing_time m / real_of_int (total_requests m)\<rparr>))"

definition add_retry :: "PerformanceMetrics \<Rightarrow> PerformanceMetrics" where
  "add_retry m = m\<lparr>retry_attempts := retry_attempts m + 1\<rparr>"

text \<open>A sequence of \<open>add_request\<close> calls on one instance; an exception ends the sequence.\<close>

fun add_requests ::
  "(bool \<times> real \<times> bool) list \<Rightarrow> PerformanceMetrics \<Rightarrow> (exn + unit) \<times> PerformanceMetrics" where
  "add_requests [] m = (Inr (), m)"
| "add_requests ((success, processing_time, from_cache) # calls) m =
     (case add_request success processing_time from_cache m of
        (Inl e, m') \<Rightarrow> (Inl e, m')
      | (Inr _, m') \<Rightarrow> add_requests calls m')"

text \<open>The relations between the counters that \<open>add_request\<close> maintains.\<close>

definition metrics_consistent :: "PerformanceMetrics \<Rightarrow> bool" where
  "metrics_consistent m \<longleftrightarrow>
     0 \<le> total_requests m \<and> 0 \<le> cached_requests m \<and>
     total_requests m = successful_requests m + failed_requests m \<and>
     cached_requests m \<le> total_requests m \<and>
     (0 < total_requests m \<longrightarrow>
        average_request_time m = total_processing_time m / real_of_int (total_requests m))"

section \<open>config.py: the constants the engine reads\<close>

definition REQUEST_TIMEOUT :: int where "REQUEST_TIMEOUT = 10"
definition MAX_PAGES :: int where "MAX_PAGES = 50"
definition DELAY_BETWEEN_REQUESTS :: real where "DELAY_BETWEEN_REQUESTS = 1.0"
definition CACHE_TTL :: real where "CACHE_TTL = 300.0"
definition CACHE_MAX_SIZE :: int where "CACHE_MAX_SIZE = 1000"
definition ENABLE_URL_CACHE :: bool where "ENABLE_URL_CACHE = True"
definition PRECOMPILE_REGEX :: bool where "PRECOMPILE_REGEX = True"
definition ENABLE_ERROR_RECOVERY :: bool where "ENABLE_ERROR_RECOVERY = True"
definition MAX_CONSECUTIVE_FAILURES :: int where "MAX_CONSECUTIVE_FAILURES = 5"

datatype RetryStrategy = EXPONENTIAL_BACKOFF | FIXED_DELAY | LINEAR_BACKOFF

section \<open>models.py: RetryConfig and CacheEntry\<close>

text \<open>
  The \<open>strategy\<close> field is declared as a string, but \<open>Config.get_retry_config\<close> stores a
  member of the enum \<open>RetryStrategy\<close> in it.  A member of a plain \<open>Enum\<close> is not equal to
  any string, so the two kinds of value are kept apart.
\<close>

datatype strategy_value = StrategyName string | StrategyMember RetryStrategy

record RetryConfig =
  max_attempts :: int
  strategy :: strategy_value
  base_delay :: real
  max_delay :: real
  jitter :: bool
  backoff_factor :: real
  retryable_exceptions :: "exn list"

text \<open>The dataclass defaults of \<open>RetryConfig\<close>.\<close>

definition new_RetryConfig :: RetryConfig where
  "new_RetryConfig =
     \<lparr>max_attempts = 3, strategy = StrategyName ''exponential_backoff'', base_delay = 1.0,
      max_delay = 60.0, jitter = True, backoff_factor = 2.0,
      retryable_exceptions = [PageNotFoundError, ConnectionError, TimeoutError, RetryableError]\<rparr>"

text \<open>\<open>Config.get_retry_config()\<close>: the policy the HTTP client runs with.\<close>

definition get_retry_config :: RetryConfig where
  "get_retry_config =
     new_RetryConfig\<lparr>max_attempts := 3, strategy := StrategyMember EXPONENTIAL_BACKOFF,
       base_delay := 1.0, max_delay := 30.0, jitter := True, backoff_factor := 2.0\<rparr>"

record 'v CacheEntry =
  data :: 'v
  timestamp :: real
  ttl :: real

text \<open>\<open>is_expired\<close> reads the clock; the reading is the first argument.\<close>

definition is_expired :: "real \<Rightarrow> 'v CacheEntry \<Rightarrow> bool" where
  "is_expired now entry \<longleftrightarrow> now - timestamp entry > ttl entry"

section \<open>models.py: Post\<close>

record Post =
  author :: string
  date :: string
  content_html :: string
  content_markdown :: string
  post_url :: string

section \<open>utils.py: the process environment\<close>

text \<open>
  What the code reads from outside itself is a parameter of the model: the outcome and the
  duration of each raw transport call (numbered in the order they are made), the draws of
  \<open>random.random()\<close> (on which \<open>random.uniform\<close> is built), the MD5 digest, the
  collaborators that read markup, and whether each append to the output file (numbered in
  order) fails.  The collaborators are the content extractor, which may raise
  \<open>ContentExtractionError\<close>, the pagination resolver, which catches its own exceptions
  and returns \<open>None\<close>, and the markdown converter, which returns its input on an error.
  A parsed page is a value of the type \<open>'page\<close>; a record of a post, as the extractor
  returns it, is a dictionary from field names to strings.
\<close>

datatype 'page transport =
    Response 'page
  | Requests_Timeout
  | Requests_ConnectionError
  | Requests_HTTPError int
  | Other_Exception

record 'page world =
  session_get :: "nat \<Rightarrow> string \<Rightarrow> int \<Rightarrow> 'page transport"
  request_duration :: "nat \<Rightarrow> real"
  random_random :: "nat \<Rightarrow> real"
  md5_hexdigest :: "string \<Rightarrow> string"
  extract_topic_links :: "'page \<Rightarrow> exn + (string \<times> string) list"
  get_next_page_url :: "'page \<Rightarrow> string \<Rightarrow> string option"
  extract_posts_from_page :: "'page \<Rightarrow> exn + (string \<times> string) list list"
  get_next_topic_page_url :: "'page \<Rightarrow> string \<Rightarrow> string option"
  markdown_convert :: "string \<Rightarrow> string"
  write_fails :: "nat \<Rightarrow> bool"

datatype LogLevel = DEBUG | INFO | WARNING | ERROR

text \<open>
  The observations the modelled code hands to its loggers, with the values each message
  is formatted from.  An observation is recorded with its level, whatever level the
  logger is set to.
\<close>

datatype log_message =
    Retry_succeeded nat
  | Retry_attempt_failed nat real exn
  | Non_retryable_error exn
  | Page_from_cache string
  | Page_fetched string
  | Page_error string exn
  | Page_failure int
  | No_topics_on_page
  | Pagination_finished
  | Pagination_cycle
  | Too_many_errors
  | Retrying_failed_pages nat
  | Post_conversion_failed exn
  | Posts_skipped nat
  | Post_write_failed exn

text \<open>
  The mutable environment of the process: the clock that \<open>time.time()\<close> reads and
  \<open>time.sleep\<close> and the network advance, the logged observations in order, how many
  transport calls and random draws have been made, the posts appended to the output
  file with the number of appends attempted, and the lengths passed to \<open>time.sleep\<close>.
  Time is a real number: the rounding of floating-point arithmetic is not modelled.
\<close>

record runtime =
  clock :: real
  logged :: "(LogLevel \<times> log_message) list"
  requests_sent :: nat
  randoms_drawn :: nat
  written :: "Post list"
  writes_attempted :: nat
  slept :: "real list"

definition new_runtime :: runtime where
  "new_runtime =
     \<lparr>clock = 0, logged = [], requests_sent = 0, randoms_drawn = 0, written = [],
      writes_attempted = 0, slept = []\<rparr>"

definition log_at :: "LogLevel \<Rightarrow> log_message \<Rightarrow> runtime \<Rightarrow> runtime" where
  "log_at level msg rt = rt\<lparr>logged := logged rt @ [(level, msg)]\<rparr>"

text \<open>\<open>random.uniform(a, b)\<close> is \<open>a + (b - a) * random()\<close>.\<close>

definition random_uniform ::
  "'page world \<Rightarrow> real \<Rightarrow> real \<Rightarrow> runtime \<Rightarrow> real \<times> runtime" where
  "random_uniform w a b rt =
     (a + (b - a) * random_random w (randoms_drawn rt),
      rt\<lparr>randoms_drawn := randoms_drawn rt + 1\<rparr>)"

text \<open>
  \<open>time.sleep\<close> raises \<open>ValueError\<close> on a negative length.  The lengths slept are
  kept in \<open>slept\<close>, in the order of the calls.
\<close>

definition time_sleep :: "real \<Rightarrow> runtime \<Rightarrow> (exn + unit) \<times> runtime" where
  "time_sleep secs rt =
     (if secs < 0 then (Inl ValueError, rt)
      else (Inr (), rt\<lparr>clock := clock rt + secs, slept := slept rt @ [secs]\<rparr>))"

definition sleep_with_jitter ::
  "'page world \<Rightarrow> real \<Rightarrow> real \<Rightarrow> runtime \<Rightarrow> (exn + unit) \<times> runtime" where
  "sleep_with_jitter w delay jitter_factor rt =
     (let (jitter, rt) = random_uniform w (- jitter_factor) jitter_factor rt;
          actual_delay = delay * (1 + jitter)
      in time_sleep (max 0 actual_delay) rt)"

section \<open>utils.py: RetryManager._calculate_delay\<close>

text \<open>
  The delays are Python floats.  Their rounding is not modelled, their range is: a power
  \<open>x ** n\<close> whose value lies beyond the largest double raises \<open>OverflowError\<close>, and so
  does the conversion of an integer beyond it in \<open>base_delay * (attempt + 1)\<close>.  A product
  of floats does not raise.
\<close>

definition float_max :: real where
  "float_max = 2 ^ 1024 - 2 ^ 971"

definition float_pow :: "real \<Rightarrow> nat \<Rightarrow> exn + real" where
  "float_pow x n = (if \<bar>x ^ n\<bar> > float_max then Inl OverflowError else Inr (x ^ n))"

definition float_of_int :: "int \<Rightarrow> exn + real" where
  "float_of_int i = (if \<bar>real_of_int i\<bar> > float_max then Inl OverflowError
                     else Inr (real_of_int i))"

definition calculate_delay ::
  "RetryConfig \<Rightarrow> 'page world \<Rightarrow> nat \<Rightarrow> runtime \<Rightarrow> (exn + real) \<times> runtime" where
  "calculate_delay config w attempt rt =
     (case (if strategy config = StrategyName ''exponential_backoff''
            then (case float_pow (backoff_factor config) attempt of
                    Inl e \<Rightarrow> Inl e
                  | Inr scale \<Rightarrow> Inr (min (base_delay config * scale) (max_delay config)))
            else if strategy config = StrategyName ''linear_backoff''
            then (case float_of_int (int attempt + 1) of
                    Inl e \<Rightarrow> Inl e
                  | Inr k \<Rightarrow> Inr (min (base_delay config * k) (max_delay config)))
            else Inr (base_delay config)) of
        Inl e \<Rightarrow> (Inl e, rt)
      | Inr delay \<Rightarrow>
          if jitter config
          then (let (u, rt) = random_uniform w (- 0.1) 0.1 rt;
                    jitter = u * delay
                in (Inr (max 0 (delay + jitter)), rt))
          else (Inr delay, rt))"

section \<open>utils.py: MemoryCache\<close>

text \<open>
  The \<open>OrderedDict\<close> is an association list in the dictionary's order: the head is the
  entry that \<open>popitem(last=False)\<close> removes, \<open>move_to_end\<close> moves an entry to the back,
  and an assignment replaces the value of a present key where it stands and appends an
  absent one (\<open>AList.update\<close>).
\<close>

record ('k, 'v) MemoryCache =
  max_size :: int
  default_ttl :: real
  cache_data :: "('k \<times> 'v CacheEntry) list"

definition new_MemoryCache :: "int \<Rightarrow> real \<Rightarrow> ('k, 'v) MemoryCache" where
  "new_MemoryCache n t = \<lparr>max_size = n, default_ttl = t, cache_data = []\<rparr>"

definition move_to_end :: "'k \<Rightarrow> ('k \<times> 'e) list \<Rightarrow> ('k \<times> 'e) list" where
  "move_to_end key xs =
     (case map_of xs key of
        None \<Rightarrow> xs
      | Some entry \<Rightarrow> AList.delete key xs @ [(key, entry)])"

definition MemoryCache_get ::
  "real \<Rightarrow> 'k \<Rightarrow> ('k, 'v) MemoryCache \<Rightarrow> 'v option \<times> ('k, 'v) MemoryCache" where
  "MemoryCache_get now key c =
     (case map_of (cache_data c) key of
        Some entry \<Rightarrow>
          if is_expired now entry
          then (None, c\<lparr>cache_data := AList.delete key (cache_data c)\<rparr>)
          else (Some (data entry), c\<lparr>cache_data := move_to_end key (cache_data c)\<rparr>)
      | None \<Rightarrow> (None, c))"

definition cleanup_expired :: "real \<Rightarrow> ('k, 'v) MemoryCache \<Rightarrow> ('k, 'v) MemoryCache" where
  "cleanup_expired current_time c =
     (let expired_keys =
            map fst (filter (\<lambda>(key, entry). current_time - timestamp entry > ttl entry)
                       (cache_data c))
      in c\<lparr>cache_data := fold AList.delete expired_keys (cache_data c)\<rparr>)"

text \<open>
  The eviction loop of \<open>put\<close>: \<open>popitem(last=False)\<close> while the size is at least
  \<open>max_size\<close>; on an empty dictionary \<open>popitem\<close> raises \<open>KeyError\<close>.
\<close>

fun evict_while_full :: "int \<Rightarrow> ('k \<times> 'e) list \<Rightarrow> (exn + unit) \<times> ('k \<times> 'e) list" where
  "evict_while_full n [] = (if 0 \<ge> n then (Inl KeyError, []) else (Inr (), []))"
| "evict_while_full n (x # xs) =
     (if int (length (x # xs)) \<ge> n then evict_while_full n xs else (Inr (), x # xs))"

text \<open>
  \<open>ttl or self.default_ttl\<close>: the default stands in for \<open>None\<close> and for every falsy
  number, that is for zero.
\<close>

definition ttl_or_default :: "real option \<Rightarrow> real \<Rightarrow> real" where
  "ttl_or_default t d = (case t of None \<Rightarrow> d | Some x \<Rightarrow> if x = 0 then d else x)"

definition MemoryCache_put ::
  "real \<Rightarrow> 'k \<Rightarrow> 'v \<Rightarrow> real option \<Rightarrow> ('k, 'v) MemoryCache \<Rightarrow>
   (exn + unit) \<times> ('k, 'v) MemoryCache" where
  "MemoryCache_put now key val t c =
     (let c = cleanup_expired now c in
      case evict_while_full (max_size c) (cache_data c) of
        (Inl e, xs) \<Rightarrow> (Inl e, c\<lparr>cache_data := xs\<rparr>)
      | (Inr _, xs) \<Rightarrow>
          (let entry = \<lparr>data = val, timestamp = now, ttl = ttl_or_default t (default_ttl c)\<rparr>
           in (Inr (), c\<lparr>cache_data := AList.update key entry xs\<rparr>)))"

section \<open>utils.py: RetryManager.execute_with_retry\<close>

text \<open>
  The loop \<open>for attempt in range(max_attempts)\<close> from a given attempt number on.
  \<open>func\<close> is the operation, acting on the environment.  Leaving the loop without a
  \<open>break\<close> reaches \<open>raise last_exception\<close> with \<open>None\<close>, which is a \<open>TypeError\<close>.
  What the delay computation or the sleep raises is raised inside the handler of the
  retryable exception, so no other handler of the loop sees it and it leaves the loop.
\<close>

function retry_loop ::
  "RetryConfig \<Rightarrow> 'page world \<Rightarrow> (runtime \<Rightarrow> (exn + 'a) \<times> runtime) \<Rightarrow> nat \<Rightarrow>
   exn option \<Rightarrow> runtime \<Rightarrow> (exn + 'a) \<times> runtime" where
  "retry_loop config w func attempt last_exception rt =
     (if int attempt < max_attempts config then
        (case func rt of
           (Inr result, rt) \<Rightarrow>
             (Inr result,
              if attempt > 0 then log_at INFO (Retry_succeeded (attempt + 1)) rt else rt)
         | (Inl e, rt) \<Rightarrow>
             if e \<in> set (retryable_exceptions config) then
               (if int attempt = max_attempts config - 1 then (Inl e, rt)
                else
                  (case calculate_delay config w attempt rt of
                     (Inl x, rt) \<Rightarrow> (Inl x, rt)
                   | (Inr delay, rt) \<Rightarrow>
                       (case time_sleep delay
                               (log_at WARNING (Retry_attempt_failed (attempt + 1) delay e) rt) of
                          (Inl x, rt) \<Rightarrow> (Inl x, rt)
                        | (Inr _, rt) \<Rightarrow> retry_loop config w func (attempt + 1) (Some e) rt)))
             else (Inl NonRetryableError, log_at ERROR (Non_retryable_error e) rt))
      else (case last_exception of None \<Rightarrow> (Inl TypeError, rt) | Some e \<Rightarrow> (Inl e, rt)))"
  by pat_completeness auto
termination
  by (relation "measure (\<lambda>(config, w, func, attempt, last_exception, rt).
                  nat (max_attempts config - int attempt))") auto

definition execute_with_retry ::
  "RetryConfig \<Rightarrow> 'page world \<Rightarrow> (runtime \<Rightarrow> (exn + 'a) \<times> runtime) \<Rightarrow> runtime \<Rightarrow>
   (exn + 'a) \<times> runtime" where
  "execute_with_retry config w func rt = retry_loop config w func 0 None rt"

section \<open>utils.py: OptimizedHttpClient\<close>

record 'page OptimizedHttpClient =
  metrics :: PerformanceMetrics
  cache :: "(string, 'page) MemoryCache option"
  retry_manager :: RetryConfig

definition new_OptimizedHttpClient :: "'page OptimizedHttpClient" where
  "new_OptimizedHttpClient =
     \<lparr>metrics = new_PerformanceMetrics,
      cache = (if ENABLE_URL_CACHE then Some (new_MemoryCache CACHE_MAX_SIZE CACHE_TTL)
               else None),
      retry_manager = get_retry_config\<rparr>"

text \<open>
  One raw transport call and the parse of its body.  Whatever \<open>session.get\<close>,
  \<open>raise_for_status\<close> or the parser raise leaves as \<open>RetryableError\<close> or
  \<open>NonRetryableError\<close>.
\<close>

definition make_request ::
  "'page world \<Rightarrow> string \<Rightarrow> int \<Rightarrow> runtime \<Rightarrow> (exn + 'page) \<times> runtime" where
  "make_request w url timeout rt =
     (let n = requests_sent rt;
          rt = rt\<lparr>requests_sent := n + 1, clock := clock rt + request_duration w n\<rparr>
      in case session_get w n url timeout of
           Response soup \<Rightarrow> (Inr soup, log_at DEBUG (Page_fetched url) rt)
         | Requests_Timeout \<Rightarrow> (Inl RetryableError, rt)
         | Requests_ConnectionError \<Rightarrow> (Inl RetryableError, rt)
         | Requests_HTTPError status_code \<Rightarrow>
             if status_code \<in> set [429, 500, 502, 503, 504] then (Inl RetryableError, rt)
             else (Inl NonRetryableError, rt)
         | Other_Exception \<Rightarrow> (Inl NonRetryableError, rt))"

definition get_cache_key :: "'page world \<Rightarrow> string \<Rightarrow> string" where
  "get_cache_key w url = (if PRECOMPILE_REGEX then md5_hexdigest w url else url)"

text \<open>
  The \<open>try\<close> block of \<open>get_page\<close>.  Next to its result it returns the value of the
  local \<open>from_cache\<close>, which the handler reads.  A parsed page is truthy (a
  \<open>BeautifulSoup\<close> object always is), so \<open>if cached_result\<close> and \<open>and soup\<close> test for
  \<open>None\<close> only.
\<close>

definition get_page_try ::
  "'page world \<Rightarrow> string \<Rightarrow> int \<Rightarrow> bool \<Rightarrow> real \<Rightarrow>
   'page OptimizedHttpClient \<times> runtime \<Rightarrow>
   (exn + 'page option) \<times> bool \<times> 'page OptimizedHttpClient \<times> runtime" where
  "get_page_try w url timeout use_cache start_time s =
     (case s of (c, rt) \<Rightarrow>
     (let cache_key = get_cache_key w url;
          (cached_result, c) =
            (case cache c of
               Some mc \<Rightarrow>
                 if use_cache
                 then (case MemoryCache_get (clock rt) cache_key mc of
                         (r, mc) \<Rightarrow> (r, c\<lparr>cache := Some mc\<rparr>))
                 else (None, c)
             | None \<Rightarrow> (None, c))
      in (case cached_result of
           Some page \<Rightarrow>
             (let rt = log_at DEBUG (Page_from_cache url) rt in
              case add_request True (clock rt - start_time) True (metrics c) of
                (Inl e, m) \<Rightarrow> (Inl e, True, c\<lparr>metrics := m\<rparr>, rt)
              | (Inr _, m) \<Rightarrow> (Inr (Some page), True, c\<lparr>metrics := m\<rparr>, rt))
         | None \<Rightarrow>
             (case execute_with_retry (retry_manager c) w (make_request w url timeout) rt of
                (Inl e, rt) \<Rightarrow> (Inl e, False, c, rt)
              | (Inr soup, rt) \<Rightarrow>
                  (case (case cache c of
                           Some mc \<Rightarrow>
                             if use_cache
                             then (case MemoryCache_put (clock rt) cache_key soup None mc of
                                     (r, mc) \<Rightarrow> (r, c\<lparr>cache := Some mc\<rparr>))
                             else (Inr (), c)
                         | None \<Rightarrow> (Inr (), c)) of
                     (Inl e, c) \<Rightarrow> (Inl e, False, c, rt)
                   | (Inr _, c) \<Rightarrow>
                       (case add_request True (clock rt - start_time) False (metrics c) of
                          (Inl e, m) \<Rightarrow> (Inl e, False, c\<lparr>metrics := m\<rparr>, rt)
                        | (Inr _, m) \<Rightarrow> (Inr (Some soup), False, c\<lparr>metrics := m\<rparr>, rt)))))))"

text \<open>
  \<open>get_page\<close>: the \<open>try\<close> block and its \<open>except Exception\<close> handler.  An \<open>Inl\<close>
  result is an exception that leaves \<open>get_page\<close>.
\<close>

definition get_page ::
  "'page world \<Rightarrow> string \<Rightarrow> int \<Rightarrow> bool \<Rightarrow> 'page OptimizedHttpClient \<times> runtime \<Rightarrow>
   (exn + 'page option) \<times> 'page OptimizedHttpClient \<times> runtime" where
  "get_page w url timeout use_cache s =
     (let start_time = clock (snd s) in
      case get_page_try w url timeout use_cache start_time s of
        (Inr soup, from_cache, c, rt) \<Rightarrow> (Inr soup, c, rt)
      | (Inl e, from_cache, c, rt) \<Rightarrow>
          (let rt = log_at ERROR (Page_error url e) rt in
           case add_request False (clock rt - start_time) from_cache (metrics c) of
             (Inl e', m) \<Rightarrow> (Inl e', c\<lparr>metrics := m\<rparr>, rt)
           | (Inr _, m) \<Rightarrow> (Inr None, c\<lparr>metrics := m\<rparr>, rt)))"

section \<open>vinskiy\_parser.py: VinskiyForumParser\<close>

record 'page VinskiyForumParser =
  http_client :: "'page OptimizedHttpClient"
  consecutive_failures :: int
  total_failures :: int
  processed_items :: int
  is_interrupted :: bool

definition new_VinskiyForumParser :: "'page VinskiyForumParser" where
  "new_VinskiyForumParser =
     \<lparr>http_client = new_OptimizedHttpClient, consecutive_failures = 0, total_failures = 0,
      processed_items = 0, is_interrupted = False\<rparr>"

text \<open>
  The local variables of one traversal.  \<open>accumulated\<close> is \<open>all_topics\<close> (a dictionary, in
  insertion order) in \<open>parse_forum\<close>, \<open>all_posts\<close> in \<open>parse_topic\<close> and
  \<open>total_posts\<close> in \<open>parse_topic_streaming\<close>.  \<open>soup\<close> is \<open>None\<close> while the name is
  not yet bound (the handler tests \<open>'soup' in locals()\<close>) and keeps its value from one
  iteration to the next.
\<close>

record ('page, 'acc) traversal =
  accumulated :: 'acc
  current_url :: "string option"
  page_count :: int
  failed_pages :: "int list"
  soup :: "'page option option"

text \<open>The locals with which a traversal enters its loop.\<close>

definition start_traversal :: "'acc \<Rightarrow> string \<Rightarrow> ('page, 'acc) traversal" where
  "start_traversal acc url =
     \<lparr>accumulated = acc, current_url = Some url, page_count = 0, failed_pages = [],
      soup = None\<rparr>"

datatype loop_flow = Continue | Break

fun startswith :: "string \<Rightarrow> string \<Rightarrow> bool" where
  "startswith s [] = True"
| "startswith [] (p # ps) = False"
| "startswith (c # cs) (p # ps) = (c = p \<and> startswith cs ps)"

text \<open>\<open>sub in s\<close> for strings.\<close>

fun contains :: "string \<Rightarrow> string \<Rightarrow> bool" where
  "contains [] sub = (sub = [])"
| "contains (c # cs) sub = (startswith (c # cs) sub \<or> contains cs sub)"

definition validate_forum_url :: "string \<Rightarrow> bool" where
  "validate_forum_url url \<longleftrightarrow>
     startswith url ''http'' \<and> contains url ''forum.awd.ru'' \<and> contains url ''viewforum.php''"

text \<open>\<open>d.update(other)\<close> on dictionaries kept in insertion order.\<close>

definition dict_update ::
  "(string \<times> string) list \<Rightarrow> (string \<times> string) list \<Rightarrow> (string \<times> string) list" where
  "dict_update d other = fold (\<lambda>(k, v). AList.update k v) other d"

text \<open>\<open>d[key]\<close>, which raises \<open>KeyError\<close> on an absent key.\<close>

definition dict_get :: "(string \<times> string) list \<Rightarrow> string \<Rightarrow> exn + string" where
  "dict_get d key = (case map_of d key of None \<Rightarrow> Inl KeyError | Some v \<Rightarrow> Inr v)"

definition handle_page_failure ::
  "int \<Rightarrow> 'page VinskiyForumParser \<times> int list \<times> runtime \<Rightarrow>
   'page VinskiyForumParser \<times> int list \<times> runtime" where
  "handle_page_failure page_num s =
     (case s of (p, failed, rt) \<Rightarrow>
        (let p = p\<lparr>consecutive_failures := consecutive_failures p + 1\<rparr>;
             p = p\<lparr>total_failures := total_failures p + 1\<rparr>;
             failed = failed @ [page_num]
         in (p, failed,
             if length failed \<le> 3 then log_at WARNING (Page_failure page_num) rt else rt)))"

definition should_continue_after_error :: "'page VinskiyForumParser \<Rightarrow> bool" where
  "should_continue_after_error p \<longleftrightarrow>
     consecutive_failures p < MAX_CONSECUTIVE_FAILURES \<and> \<not> is_interrupted p"

definition calculate_adaptive_delay :: "'page VinskiyForumParser \<Rightarrow> int \<Rightarrow> real" where
  "calculate_adaptive_delay p page_num =
     (let base_delay = DELAY_BETWEEN_REQUESTS;
          base_delay =
            (if consecutive_failures p > 0
             then base_delay * (1 + real_of_int (consecutive_failures p) * 0.5)
             else base_delay);
          base_delay =
            (if consecutive_failures p = 0 \<and> page_num > 5 then base_delay * 0.8
             else base_delay)
      in max base_delay 0.5)"

text \<open>
  \<open>_try_next_page_url\<close> and \<open>_try_next_topic_page_url\<close>: \<open>None\<close> without a page; the
  resolver does not raise.
\<close>

definition try_next_page_url :: "'page world \<Rightarrow> 'page option \<Rightarrow> string \<Rightarrow> string option" where
  "try_next_page_url w sp current =
     (case sp of None \<Rightarrow> None | Some page \<Rightarrow> get_next_page_url w page current)"

definition try_next_topic_page_url ::
  "'page world \<Rightarrow> 'page option \<Rightarrow> string \<Rightarrow> string option" where
  "try_next_topic_page_url w sp current =
     (case sp of None \<Rightarrow> None | Some page \<Rightarrow> get_next_topic_page_url w page current)"

text \<open>\<open>soup if 'soup' in locals() else None\<close>.\<close>

definition soup_in_locals :: "'page option option \<Rightarrow> 'page option" where
  "soup_in_locals sp = (case sp of None \<Rightarrow> None | Some x \<Rightarrow> x)"

subsection \<open>parse\_forum\<close>

text \<open>
  The \<open>try\<close> block of one iteration of the listing loop, on the current URL.  An
  exception comes with the value \<open>current_url\<close> has when it is raised, which the handler
  reads.  Of the debug messages of the traversals only the one that ends the pagination is
  recorded.
\<close>

definition parse_forum_try ::
  "'page world \<Rightarrow> string \<Rightarrow>
   'page VinskiyForumParser \<times> ('page, (string \<times> string) list) traversal \<times> runtime \<Rightarrow>
   ((exn \<times> string) + loop_flow) \<times>
   'page VinskiyForumParser \<times> ('page, (string \<times> string) list) traversal \<times> runtime" where
  "parse_forum_try w url s =
     (case s of (p, t, rt) \<Rightarrow>
       (case get_page w url REQUEST_TIMEOUT True (http_client p, rt) of
          (Inl e, c, rt) \<Rightarrow> (Inl (e, url), p\<lparr>http_client := c\<rparr>, t, rt)
        | (Inr sp, c, rt) \<Rightarrow>
            (case sp of
               None \<Rightarrow>
                 (case handle_page_failure (page_count t)
                         (p\<lparr>http_client := c\<rparr>, failed_pages t, rt) of
                    (p, failed, rt) \<Rightarrow>
                      (Inr Continue, p,
                       t\<lparr>soup := Some sp, failed_pages := failed,
                         current_url := try_next_page_url w sp url\<rparr>, rt))
             | Some page \<Rightarrow>
                 (case extract_topic_links w page of
                    Inl e \<Rightarrow> (Inl (e, url), p\<lparr>http_client := c\<rparr>, t\<lparr>soup := Some sp\<rparr>, rt)
                  | Inr topics \<Rightarrow>
                      (let p = p\<lparr>http_client := c\<rparr>;
                           t = t\<lparr>soup := Some sp\<rparr>;
                           t = (if topics \<noteq> []
                                then t\<lparr>accumulated := dict_update (accumulated t) topics\<rparr>
                                else t);
                           p = (if topics \<noteq> [] then p\<lparr>consecutive_failures := 0\<rparr> else p);
                           rt = (if topics \<noteq> [] then rt
                                 else log_at WARNING No_topics_on_page rt)
                       in (case get_next_page_url w page url of
                             None \<Rightarrow> (Inr Break, p, t, log_at DEBUG Pagination_finished rt)
                           | Some next_url \<Rightarrow>
                               if next_url = []
                               then (Inr Break, p, t, log_at DEBUG Pagination_finished rt)
                               else if next_url = url
                               then (Inr Break, p, t, log_at WARNING Pagination_cycle rt)
                               else
                                 (case sleep_with_jitter w
                                         (calculate_adaptive_delay p (page_count t)) 0.1 rt of
                                    (Inl e, rt) \<Rightarrow>
                                      (Inl (e, next_url), p,
                                       t\<lparr>current_url := Some next_url\<rparr>, rt)
                                  | (Inr _, rt) \<Rightarrow>
                                      (Inr Continue, p,
                                       t\<lparr>current_url := Some next_url\<rparr>, rt))))))))"

text \<open>One iteration of the loop: the count, the \<open>try\<close> block and its handler.\<close>

definition parse_forum_iteration ::
  "'page world \<Rightarrow> string \<Rightarrow>
   'page VinskiyForumParser \<times> ('page, (string \<times> string) list) traversal \<times> runtime \<Rightarrow>
   loop_flow \<times>
   'page VinskiyForumParser \<times> ('page, (string \<times> string) list) traversal \<times> runtime" where
  "parse_forum_iteration w url s =
     (case s of (p, t, rt) \<Rightarrow>
       (case parse_forum_try w url (p, t\<lparr>page_count := page_count t + 1\<rparr>, rt) of
          (Inr flow, s') \<Rightarrow> (flow, s')
        | (Inl (e, current), p, t, rt) \<Rightarrow>
            (case handle_page_failure (page_count t) (p, failed_pages t, rt) of
               (p, failed, rt) \<Rightarrow>
                 if \<not> should_continue_after_error p
                 then (Break, p, t\<lparr>failed_pages := failed\<rparr>, log_at ERROR Too_many_errors rt)
                 else (Continue, p,
                       t\<lparr>failed_pages := failed,
                         current_url :=
                           try_next_page_url w (soup_in_locals (soup t)) current\<rparr>,
                       rt))))"

lemma handle_page_failure_fields:
  "handle_page_failure n (p, failed, rt) = (p', failed', rt') \<Longrightarrow>
   consecutive_failures p' = consecutive_failures p + 1 \<and>
   total_failures p' = total_failures p + 1 \<and>
   is_interrupted p' = is_interrupted p \<and>
   http_client p' = http_client p \<and>
   failed' = failed @ [n] \<and>
   clock rt' = clock rt \<and> requests_sent rt' = requests_sent rt \<and>
   randoms_drawn rt' = randoms_drawn rt"
  by (auto simp: handle_page_failure_def Let_def log_at_def split: if_splits)

lemma parse_forum_try_page_count:
  "parse_forum_try w url (p, t, rt) = (r, p', t', rt') \<Longrightarrow> page_count t' = page_count t"
  unfolding parse_forum_try_def
  by (auto simp: Let_def split: prod.splits sum.splits option.splits if_splits)

lemma parse_forum_iteration_page_count:
  "parse_forum_iteration w url (p, t, rt) = (flow, p', t', rt') \<Longrightarrow>
   page_count t' = page_count t + 1"
  unfolding parse_forum_iteration_def
  by (auto split: prod.splits sum.splits if_splits dest: parse_forum_try_page_count)

text \<open>
  The loop \<open>while current_url and page_count < Config.MAX_PAGES and not
  self.is_interrupted\<close>.  Its result is the state in which the loop is left.
\<close>

function parse_forum_loop ::
  "'page world \<Rightarrow>
   'page VinskiyForumParser \<times> ('page, (string \<times> string) list) traversal \<times> runtime \<Rightarrow>
   'page VinskiyForumParser \<times> ('page, (string \<times> string) list) traversal \<times> runtime" where
  "parse_forum_loop w (p, t, rt) =
     (case current_url t of
        None \<Rightarrow> (p, t, rt)
      | Some url \<Rightarrow>
          if url \<noteq> [] \<and> page_count t < MAX_PAGES \<and> \<not> is_interrupted p
          then (case parse_forum_iteration w url (p, t, rt) of
                  (Break, s) \<Rightarrow> s
                | (Continue, s) \<Rightarrow> parse_forum_loop w s)
          else (p, t, rt))"
  by pat_completeness auto
termination
  by (relation "measure (\<lambda>(w, p, t, rt). nat (MAX_PAGES - page_count t))")
    (auto dest: parse_forum_iteration_page_count parse_forum_iteration_page_count [OF sym])

text \<open>
  \<open>_retry_failed_pages\<close> and \<open>_retry_failed_topic_pages\<close> log and recover nothing.
\<close>

definition retry_failed_pages :: "int list \<Rightarrow> runtime \<Rightarrow> (string \<times> string) list \<times> runtime" where
  "retry_failed_pages failed rt = ([], log_at INFO (Retrying_failed_pages (length failed)) rt)"

definition retry_failed_topic_pages :: "int list \<Rightarrow> runtime \<Rightarrow> Post list \<times> runtime" where
  "retry_failed_topic_pages failed rt =
     ([], log_at INFO (Retrying_failed_pages (length failed)) rt)"

definition parse_forum ::
  "'page world \<Rightarrow> string \<Rightarrow> 'page VinskiyForumParser \<times> runtime \<Rightarrow>
   (exn + (string \<times> string) list) \<times> 'page VinskiyForumParser \<times> runtime" where
  "parse_forum w forum_url s =
     (if \<not> validate_forum_url forum_url then (Inl InvalidUrlError, s)
      else
        (case parse_forum_loop w (fst s, start_traversal [] forum_url, snd s) of
           (p, t, rt) \<Rightarrow>
             if failed_pages t \<noteq> [] \<and> ENABLE_ERROR_RECOVERY
             then (case retry_failed_pages (failed_pages t) rt of
                     (recovered, rt) \<Rightarrow> (Inr (dict_update (accumulated t) recovered), p, rt))
             else (Inr (accumulated t), p, rt)))"

subsection \<open>parse\_topic\<close>

text \<open>
  \<open>_convert_posts_data_safe\<close>: each record becomes a \<open>Post\<close>; a record that raises is
  counted and skipped, the first three with a warning.
\<close>

definition make_post :: "'page world \<Rightarrow> (string \<times> string) list \<Rightarrow> exn + Post" where
  "make_post w post_data =
     (case dict_get post_data ''content_html'' of
        Inl e \<Rightarrow> Inl e
      | Inr html \<Rightarrow>
          (case dict_get post_data ''author'' of
             Inl e \<Rightarrow> Inl e
           | Inr a \<Rightarrow>
               (case dict_get post_data ''date'' of
                  Inl e \<Rightarrow> Inl e
                | Inr d \<Rightarrow>
                    (case dict_get post_data ''post_url'' of
                       Inl e \<Rightarrow> Inl e
                     | Inr u \<Rightarrow>
                         Inr \<lparr>author = a, date = d, content_html = html,
                              content_markdown = markdown_convert w html, post_url = u\<rparr>))))"

fun convert_posts ::
  "'page world \<Rightarrow> (string \<times> string) list list \<Rightarrow> Post list \<Rightarrow> nat \<Rightarrow> runtime \<Rightarrow>
   (Post list \<times> nat) \<times> runtime" where
  "convert_posts w [] posts failed_conversions rt = ((posts, failed_conversions), rt)"
| "convert_posts w (post_data # rest) posts failed_conversions rt =
     (case make_post w post_data of
        Inr post \<Rightarrow> convert_posts w rest (posts @ [post]) failed_conversions rt
      | Inl e \<Rightarrow>
          convert_posts w rest posts (failed_conversions + 1)
            (if failed_conversions + 1 \<le> 3 then log_at WARNING (Post_conversion_failed e) rt
             else rt))"

definition convert_posts_data_safe ::
  "'page world \<Rightarrow> (string \<times> string) list list \<Rightarrow> runtime \<Rightarrow> Post list \<times> runtime" where
  "convert_posts_data_safe w posts_data rt =
     (case convert_posts w posts_data [] 0 rt of
        ((posts, failed_conversions), rt) \<Rightarrow>
          (posts,
           if failed_conversions > 0 then log_at WARNING (Posts_skipped failed_conversions) rt
           else rt))"

definition parse_topic_try ::
  "'page world \<Rightarrow> string \<Rightarrow>
   'page VinskiyForumParser \<times> ('page, Post list) traversal \<times> runtime \<Rightarrow>
   ((exn \<times> string) + loop_flow) \<times>
   'page VinskiyForumParser \<times> ('page, Post list) traversal \<times> runtime" where
  "parse_topic_try w url s =
     (case s of (p, t, rt) \<Rightarrow>
       (case get_page w url REQUEST_TIMEOUT True (http_client p, rt) of
          (Inl e, c, rt) \<Rightarrow> (Inl (e, url), p\<lparr>http_client := c\<rparr>, t, rt)
        | (Inr sp, c, rt) \<Rightarrow>
            (case sp of
               None \<Rightarrow>
                 (case handle_page_failure (page_count t)
                         (p\<lparr>http_client := c\<rparr>, failed_pages t, rt) of
                    (p, failed, rt) \<Rightarrow>
                      (Inr Continue, p,
                       t\<lparr>soup := Some sp, failed_pages := failed,
                         current_url := try_next_topic_page_url w sp url\<rparr>, rt))
             | Some page \<Rightarrow>
                 (case extract_posts_from_page w page of
                    Inl e \<Rightarrow> (Inl (e, url), p\<lparr>http_client := c\<rparr>, t\<lparr>soup := Some sp\<rparr>, rt)
                  | Inr posts_data \<Rightarrow>
                      (case convert_posts_data_safe w posts_data rt of
                         (page_posts, rt) \<Rightarrow>
                           (let p = p\<lparr>http_client := c\<rparr>;
                                t = t\<lparr>soup := Some sp,
                                      accumulated := accumulated t @ page_posts\<rparr>;
                                p = (if page_posts \<noteq> [] then p\<lparr>consecutive_failures := 0\<rparr>
                                     else p)
                            in (case get_next_topic_page_url w page url of
                                  None \<Rightarrow> (Inr Break, p, t, log_at DEBUG Pagination_finished rt)
                                | Some next_url \<Rightarrow>
                                    if next_url = []
                                    then (Inr Break, p, t, log_at DEBUG Pagination_finished rt)
                                    else if next_url = url
                                    then (Inr Break, p, t, log_at WARNING Pagination_cycle rt)
                                    else
                                      (case sleep_with_jitter w DELAY_BETWEEN_REQUESTS 0.1 rt of
                                         (Inl e, rt) \<Rightarrow>
                                           (Inl (e, next_url), p,
                                            t\<lparr>current_url := Some next_url\<rparr>, rt)
                                       | (Inr _, rt) \<Rightarrow>
                                           (Inr Continue, p,
                                            t\<lparr>current_url := Some next_url\<rparr>, rt)))))))))"

definition parse_topic_iteration ::
  "'page world \<Rightarrow> string \<Rightarrow>
   'page VinskiyForumParser \<times> ('page, Post list) traversal \<times> runtime \<Rightarrow>
   loop_flow \<times> 'page VinskiyForumParser \<times> ('page, Post list) traversal \<times> runtime" where
  "parse_topic_iteration w url s =
     (case s of (p, t, rt) \<Rightarrow>
       (case parse_topic_try w url (p, t\<lparr>page_count := page_count t + 1\<rparr>, rt) of
          (Inr flow, s') \<Rightarrow> (flow, s')
        | (Inl (e, current), p, t, rt) \<Rightarrow>
            (case handle_page_failure (page_count t) (p, failed_pages t, rt) of
               (p, failed, rt) \<Rightarrow>
                 if \<not> should_continue_after_error p
                 then (Break, p, t\<lparr>failed_pages := failed\<rparr>, rt)
                 else (Continue, p,
                       t\<lparr>failed_pages := failed,
                         current_url :=
                           try_next_topic_page_url w (soup_in_locals (soup t)) current\<rparr>,
                       rt))))"

lemma parse_topic_try_page_count:
  "parse_topic_try w url (p, t, rt) = (r, p', t', rt') \<Longrightarrow> page_count t' = page_count t"
  unfolding parse_topic_try_def
  by (auto simp: Let_def split: prod.splits sum.splits option.splits if_splits)

lemma parse_topic_iteration_page_count:
  "parse_topic_iteration w url (p, t, rt) = (flow, p', t', rt') \<Longrightarrow>
   page_count t' = page_count t + 1"
  unfolding parse_topic_iteration_def
  by (auto split: prod.splits sum.splits if_splits dest: parse_topic_try_page_count)

function parse_topic_loop ::
  "'page world \<Rightarrow>
   'page VinskiyForumParser \<times> ('page, Post list) traversal \<times> runtime \<Rightarrow>
   'page VinskiyForumParser \<times> ('page, Post list) traversal \<times> runtime" where
  "parse_topic_loop w (p, t, rt) =
     (case current_url t of
        None \<Rightarrow> (p, t, rt)
      | Some url \<Rightarrow>
          if url \<noteq> [] \<and> page_count t < MAX_PAGES \<and> \<not> is_interrupted p
          then (case parse_topic_iteration w url (p, t, rt) of
                  (Break, s) \<Rightarrow> s
                | (Continue, s) \<Rightarrow> parse_topic_loop w s)
          else (p, t, rt))"
  by pat_completeness auto
termination
  by (relation "measure (\<lambda>(w, p, t, rt). nat (MAX_PAGES - page_count t))")
    (auto dest: parse_topic_iteration_page_count parse_topic_iteration_page_count [OF sym])

definition parse_topic ::
  "'page world \<Rightarrow> string \<Rightarrow> 'page VinskiyForumParser \<times> runtime \<Rightarrow>
   Post list \<times> 'page VinskiyForumParser \<times> runtime" where
  "parse_topic w topic s =
     (case parse_topic_loop w (fst s, start_traversal [] topic, snd s) of
        (p, t, rt) \<Rightarrow>
          if failed_pages t \<noteq> [] \<and> ENABLE_ERROR_RECOVERY
          then (case retry_failed_topic_pages (failed_pages t) rt of
                  (recovered, rt) \<Rightarrow> (accumulated t @ recovered, p, rt))
          else (accumulated t, p, rt))"

subsection \<open>parse\_topic\_streaming\<close>

text \<open>
  \<open>write_post\<close> appends one post to the output file; a failed append is logged and
  raised again.
\<close>

definition write_post :: "'page world \<Rightarrow> Post \<Rightarrow> runtime \<Rightarrow> (exn + unit) \<times> runtime" where
  "write_post w post rt =
     (let n = writes_attempted rt;
          rt = rt\<lparr>writes_attempted := n + 1\<rparr>
      in if write_fails w n then (Inl OSError, log_at ERROR (Post_write_failed OSError) rt)
         else (Inr (), rt\<lparr>written := written rt @ [post]\<rparr>))"

text \<open>
  The inner loop of the streaming traversal: each record is converted and written at
  once; a record that raises, in the conversion or in the write, is skipped.  The
  messages and the progress line that depend on the verbose mode are left out.
\<close>

fun stream_posts ::
  "'page world \<Rightarrow> (string \<times> string) list list \<Rightarrow> int \<Rightarrow> int \<Rightarrow> runtime \<Rightarrow>
   (int \<times> int) \<times> runtime" where
  "stream_posts w [] page_posts total_posts rt = ((page_posts, total_posts), rt)"
| "stream_posts w (post_data # rest) page_posts total_posts rt =
     (case make_post w post_data of
        Inl e \<Rightarrow> stream_posts w rest page_posts total_posts rt
      | Inr post \<Rightarrow>
          (case write_post w post rt of
             (Inl e, rt) \<Rightarrow> stream_posts w rest page_posts total_posts rt
           | (Inr _, rt) \<Rightarrow> stream_posts w rest (page_posts + 1) (total_posts + 1) rt))"

definition parse_topic_streaming_try ::
  "'page world \<Rightarrow> string \<Rightarrow>
   'page VinskiyForumParser \<times> ('page, int) traversal \<times> runtime \<Rightarrow>
   ((exn \<times> string) + loop_flow) \<times>
   'page VinskiyForumParser \<times> ('page, int) traversal \<times> runtime" where
  "parse_topic_streaming_try w url s =
     (case s of (p, t, rt) \<Rightarrow>
       (case get_page w url REQUEST_TIMEOUT True (http_client p, rt) of
          (Inl e, c, rt) \<Rightarrow> (Inl (e, url), p\<lparr>http_client := c\<rparr>, t, rt)
        | (Inr sp, c, rt) \<Rightarrow>
            (case sp of
               None \<Rightarrow>
                 (case handle_page_failure (page_count t)
                         (p\<lparr>http_client := c\<rparr>, failed_pages t, rt) of
                    (p, failed, rt) \<Rightarrow>
                      (Inr Continue, p,
                       t\<lparr>soup := Some sp, failed_pages := failed,
                         current_url := try_next_topic_page_url w sp url\<rparr>, rt))
             | Some page \<Rightarrow>
                 (case extract_posts_from_page w page of
                    Inl e \<Rightarrow> (Inl (e, url), p\<lparr>http_client := c\<rparr>, t\<lparr>soup := Some sp\<rparr>, rt)
                  | Inr posts_data \<Rightarrow>
                      (case stream_posts w posts_data 0 (accumulated t) rt of
                         ((page_posts, total_posts), rt) \<Rightarrow>
                           (let p = p\<lparr>http_client := c\<rparr>;
                                t = t\<lparr>soup := Some sp, accumulated := total_posts\<rparr>;
                                p = (if page_posts > 0 then p\<lparr>consecutive_failures := 0\<rparr>
                                     else p)
                            in (case get_next_topic_page_url w page url of
                                  None \<Rightarrow> (Inr Break, p, t, rt)
                                | Some next_url \<Rightarrow>
                                    if next_url = [] \<or> next_url = url
                                    then (Inr Break, p, t, rt)
                                    else
                                      (case sleep_with_jitter w DELAY_BETWEEN_REQUESTS 0.1 rt of
                                         (Inl e, rt) \<Rightarrow>
                                           (Inl (e, next_url), p,
                                            t\<lparr>current_url := Some next_url\<rparr>, rt)
                                       | (Inr _, rt) \<Rightarrow>
                                           (Inr Continue, p,
                                            t\<lparr>current_url := Some next_url\<rparr>, rt)))))))))"

definition parse_topic_streaming_iteration ::
  "'page world \<Rightarrow> string \<Rightarrow>
   'page VinskiyForumParser \<times> ('page, int) traversal \<times> runtime \<Rightarrow>
   loop_flow \<times> 'page VinskiyForumParser \<times> ('page, int) traversal \<times> runtime" where
  "parse_topic_streaming_iteration w url s =
     (case s of (p, t, rt) \<Rightarrow>
       (case parse_topic_streaming_try w url (p, t\<lparr>page_count := page_count t + 1\<rparr>, rt) of
          (Inr flow, s') \<Rightarrow> (flow, s')
        | (Inl (e, current), p, t, rt) \<Rightarrow>
            (case handle_page_failure (page_count t) (p, failed_pages t, rt) of
               (p, failed, rt) \<Rightarrow>
                 if \<not> should_continue_after_error p
                 then (Break, p, t\<lparr>failed_pages := failed\<rparr>, rt)
                 else (Continue, p,
                       t\<lparr>failed_pages := failed,
                         current_url :=
                           try_next_topic_page_url w (soup_in_locals (soup t)) current\<rparr>,
                       rt))))"

lemma parse_topic_streaming_try_page_count:
  "parse_topic_streaming_try w url (p, t, rt) = (r, p', t', rt') \<Longrightarrow>
   page_count t' = page_count t"
  unfolding parse_topic_streaming_try_def
  by (auto simp: Let_def split: prod.splits sum.splits option.splits if_splits)

lemma parse_topic_streaming_iteration_page_count:
  "parse_topic_streaming_iteration w url (p, t, rt) = (flow, p', t', rt') \<Longrightarrow>
   page_count t' = page_count t + 1"
  unfolding parse_topic_streaming_iteration_def
  by (auto split: prod.splits sum.splits if_splits dest: parse_topic_streaming_try_page_count)

function parse_topic_streaming_loop ::
  "'page world \<Rightarrow>
   'page VinskiyForumParser \<times> ('page, int) traversal \<times> runtime \<Rightarrow>
   'page VinskiyForumParser \<times> ('page, int) traversal \<times> runtime" where
  "parse_topic_streaming_loop w (p, t, rt) =
     (case current_url t of
        None \<Rightarrow> (p, t, rt)
      | Some url \<Rightarrow>
          if url \<noteq> [] \<and> page_count t < MAX_PAGES \<and> \<not> is_interrupted p
          then (case parse_topic_streaming_iteration w url (p, t, rt) of
                  (Break, s) \<Rightarrow> s
                | (Continue, s) \<Rightarrow> parse_topic_streaming_loop w s)
          else (p, t, rt))"
  by pat_completeness auto
termination
  by (relation "measure (\<lambda>(w, p, t, rt). nat (MAX_PAGES - page_count t))")
    (auto dest: parse_topic_streaming_iteration_page_count
       parse_topic_streaming_iteration_page_count [OF sym])

definition parse_topic_streaming ::
  "'page world \<Rightarrow> string \<Rightarrow> 'page VinskiyForumParser \<times> runtime \<Rightarrow>
   int \<times> 'page VinskiyForumParser \<times> runtime" where
  "parse_topic_streaming w topic s =
     (case parse_topic_streaming_loop w (fst s, start_traversal 0 topic, snd s) of
        (p, t, rt) \<Rightarrow> (accumulated t, p, rt))"

section \<open>Concrete environments\<close>

text \<open>
  An environment given by its transport alone: every transport call takes a quarter of a
  second, \<open>random()\<close> returns one half (so that every jitter is zero), the digest is
  injective, no page has topics, posts or a next page, and no write fails.  The examples
  below start from it.
\<close>

definition scripted_world :: "(nat \<Rightarrow> string \<Rightarrow> int \<Rightarrow> 'page transport) \<Rightarrow> 'page world" where
  "scripted_world net =
     \<lparr>session_get = net, request_duration = (\<lambda>_. 1 / 4), random_random = (\<lambda>_. 1 / 2),
      md5_hexdigest = (\<lambda>u. u), extract_topic_links = (\<lambda>_. Inr []),
      get_next_page_url = (\<lambda>_ _. None), extract_posts_from_page = (\<lambda>_. Inr []),
      get_next_topic_page_url = (\<lambda>_ _. None), markdown_convert = (\<lambda>h. h),
      write_fails = (\<lambda>_. False)\<rparr>"

definition listing_url :: string where
  "listing_url = ''https://forum.awd.ru/viewforum.php?f=1193''"

text \<open>Every transport call times out.\<close>

definition timeout_world :: "nat world" where
  "timeout_world = scripted_world (\<lambda>n u t. Requests_Timeout)"

text \<open>The first transport call times out, every later one returns page \<open>0\<close>.\<close>

definition retry_once_world :: "nat world" where
  "retry_once_world = scripted_world (\<lambda>n u t. if n = 0 then Requests_Timeout else Response 0)"

text \<open>
  Every URL returns page \<open>0\<close>, on which the extractor raises and the resolver returns
  the URL it was asked about.
\<close>

definition cycle_world :: "nat world" where
  "cycle_world =
     (scripted_world (\<lambda>n u t. Response 0))
       \<lparr>extract_topic_links := (\<lambda>_. Inl ContentExtractionError),
        get_next_page_url := (\<lambda>_ u. Some u)\<rparr>"



text \<open>
  The \<open>n\<close>-th transport call returns page \<open>n\<close>, counted from zero.  On the pages 0 to
  3 the extractor of topic links raises, on every later page it finds one topic; the
  resolver finds a next page, with a longer URL, on the pages 0 to 5 and none later.
\<close>

definition recovering_world :: "nat world" where
  "recovering_world =
     (scripted_world (\<lambda>n u t. Response n))
       \<lparr>extract_topic_links :=
          (\<lambda>page. if page < 4 then Inl ContentExtractionError
                   else Inr [(''Topic'', ''https://forum.awd.ru/viewtopic.php?t=1'')]),
        get_next_page_url :=
          (\<lambda>page u. if page < 6 then Some (u @ ''&start=131'') else None)\<rparr>"

text \<open>
  A cache of at most three entries after \<open>put('a', 0)\<close> at time 0, \<open>put('b', 1)\<close> at
  time 1, \<open>put('a', 2)\<close> at time 2 and \<open>put('c', 3)\<close> at time 3; and the same cache
  when the third call is \<open>get('a')\<close> instead.
\<close>

definition rewritten_key_cache :: "(string, nat) MemoryCache" where
  "rewritten_key_cache =
     snd (MemoryCache_put 3 ''c'' 3 None
       (snd (MemoryCache_put 2 ''a'' 2 None
         (snd (MemoryCache_put 1 ''b'' 1 None
           (snd (MemoryCache_put 0 ''a'' 0 None (new_MemoryCache 3 300))))))))"

definition read_key_cache :: "(string, nat) MemoryCache" where
  "read_key_cache =
     snd (MemoryCache_put 3 ''c'' 3 None
       (snd (MemoryCache_get 2 ''a''
         (snd (MemoryCache_put 1 ''b'' 1 None
           (snd (MemoryCache_put 0 ''a'' 0 None (new_MemoryCache 3 300))))))))"

text \<open>The definitions that evaluate a fetch, and a traversal, on a concrete environment.\<close>

lemmas fetch_defs =
  get_page_def get_page_try_def scripted_world_def new_OptimizedHttpClient_def new_runtime_def
  get_cache_key_def PRECOMPILE_REGEX_def ENABLE_URL_CACHE_def new_MemoryCache_def
  MemoryCache_get_def execute_with_retry_def make_request_def get_retry_config_def
  new_RetryConfig_def calculate_delay_def random_uniform_def log_at_def time_sleep_def
  MemoryCache_put_def cleanup_expired_def ttl_or_default_def add_request_def
  new_PerformanceMetrics_def CACHE_MAX_SIZE_def CACHE_TTL_def REQUEST_TIMEOUT_def
  is_expired_def move_to_end_def Let_def

lemmas traversal_defs =
  parse_forum_iteration_def parse_forum_try_def parse_topic_iteration_def parse_topic_try_def
  parse_topic_streaming_iteration_def parse_topic_streaming_try_def write_post_def
  handle_page_failure_def should_continue_after_error_def try_next_page_url_def
  try_next_topic_page_url_def soup_in_locals_def start_traversal_def
  new_VinskiyForumParser_def MAX_CONSECUTIVE_FAILURES_def MAX_PAGES_def
  calculate_adaptive_delay_def sleep_with_jitter_def DELAY_BETWEEN_REQUESTS_def
  dict_update_def convert_posts_data_safe_def

section \<open>Properties of PerformanceMetrics\<close>

lemma metrics_consistent_new: "metrics_consistent new_PerformanceMetrics"
  by (simp add: metrics_consistent_def new_PerformanceMetrics_def)

lemma add_request_consistent:
  assumes "metrics_consistent m"
  shows "\<exists>m'. add_request s t c m = (Inr (), m') \<and> metrics_consistent m' \<and>
              total_requests m' = total_requests m + 1"
  using assms by (auto simp: add_request_def metrics_consistent_def Let_def)

lemma add_requests_consistent:
  "metrics_consistent m \<Longrightarrow>
   \<exists>m'. add_requests calls m = (Inr (), m') \<and> metrics_consistent m' \<and>
        total_requests m' = total_requests m + int (length calls)"
proof (induction calls arbitrary: m)
  case Nil
  then show ?case by simp
next
  case (Cons call calls)
  obtain s t c where call: "call = (s, t, c)" by (cases call)
  from add_request_consistent [OF Cons.prems, of s t c]
  obtain m1 where m1: "add_request s t c m = (Inr (), m1)" "metrics_consistent m1"
    "total_requests m1 = total_requests m + 1" by blast
  from Cons.IH [OF m1(2)]
  obtain m' where m': "add_requests calls m1 = (Inr (), m')" "metrics_consistent m'"
    "total_requests m' = total_requests m1 + int (length calls)" by blast
  show ?case using call m1 m' by simp
qed

text \<open>
  C10.  Starting from a freshly constructed \<open>PerformanceMetrics\<close>, every sequence of
  \<open>add_request\<close> calls returns normally and leaves an instance in which
  \<open>total_requests\<close> is the number of calls and equals
  \<open>successful_requests + failed_requests\<close>, \<open>cached_requests\<close> is at most
  \<open>total_requests\<close>, and, when \<open>total_requests > 0\<close>, \<open>average_request_time\<close> is
  \<open>total_processing_time / total_requests\<close>.
\<close>

theorem add_requests_invariant:
  "\<exists>m. add_requests calls new_PerformanceMetrics = (Inr (), m) \<and>
       total_requests m = int (length calls) \<and>
       total_requests m = successful_requests m + failed_requests m \<and>
       cached_requests m \<le> total_requests m \<and>
       (0 < total_requests m \<longrightarrow>
          average_request_time m = total_processing_time m / real_of_int (total_requests m))"
proof -
  from add_requests_consistent [OF metrics_consistent_new, of calls]
  obtain m where m: "add_requests calls new_PerformanceMetrics = (Inr (), m)"
    "metrics_consistent m"
    "total_requests m = total_requests new_PerformanceMetrics + int (length calls)" by blast
  from m(3) have "total_requests m = int (length calls)"
    by (simp add: new_PerformanceMetrics_def)
  with m(1,2) show ?thesis by (auto simp: metrics_consistent_def)
qed

theorem add_requests_invariant_witness:
  "\<exists>m. add_requests [(True, 2, False), (False, 1, False), (True, 0, True)]
          new_PerformanceMetrics = (Inr (), m) \<and>
       total_requests m = 3 \<and> successful_requests m = 2 \<and> failed_requests m = 1 \<and>
       cached_requests m = 1 \<and> 0 < total_requests m \<and> average_request_time m = 1"
proof -
  from add_requests_invariant [of "[(True, 2, False), (False, 1, False), (True, 0, True)]"]
  obtain m where m:
    "add_requests [(True, 2, False), (False, 1, False), (True, 0, True)]
       new_PerformanceMetrics = (Inr (), m)"
    "0 < total_requests m \<longrightarrow>
       average_request_time m = total_processing_time m / real_of_int (total_requests m)"
    by blast
  from m(1) have v: "total_requests m = 3" "successful_requests m = 2" "failed_requests m = 1"
    "cached_requests m = 1" "total_processing_time m = 3"
    by (auto simp: add_request_def new_PerformanceMetrics_def Let_def)
  with m show ?thesis by simp
qed

section \<open>Properties of MemoryCache\<close>

lemma fold_delete_filter:
  "fold AList.delete ks xs = filter (\<lambda>(k, e). k \<notin> set ks) xs"
proof (induction ks arbitrary: xs)
  case Nil
  then show ?case by simp
next
  case (Cons k ks)
  have "filter (\<lambda>(k', e). k' \<notin> set ks) (AList.delete k xs) =
        filter (\<lambda>(k', e). k' \<notin> set (k # ks)) xs"
    by (induction xs) (auto simp: AList.delete_eq)
  with Cons.IH [of "AList.delete k xs"] show ?case by simp
qed

text \<open>
  With the keys of the dictionary distinct, the sweep keeps exactly the entries that are
  not expired, in their order.
\<close>

lemma cleanup_expired_filter:
  assumes "distinct (map fst (cache_data c))"
  shows "cache_data (cleanup_expired now c) =
         filter (\<lambda>(k, e). \<not> is_expired now e) (cache_data c)"
proof -
  let ?xs = "cache_data c"
  let ?ks = "map fst (filter (\<lambda>(key, entry). now - timestamp entry > ttl entry) ?xs)"
  have "\<And>k e. (k, e) \<in> set ?xs \<Longrightarrow> (k \<notin> set ?ks) = (\<not> is_expired now e)"
  proof -
    fix k e assume ke: "(k, e) \<in> set ?xs"
    have uniq: "\<And>e'. (k, e') \<in> set ?xs \<Longrightarrow> e' = e"
      using assms ke by (metis eq_key_imp_eq_value)
    have "k \<in> set ?ks \<longleftrightarrow> (\<exists>e'. (k, e') \<in> set ?xs \<and> now - timestamp e' > ttl e')"
      by (auto simp: image_iff)
    with uniq ke show "(k \<notin> set ?ks) = (\<not> is_expired now e)"
      unfolding is_expired_def by blast
  qed
  then have "filter (\<lambda>(k, e). k \<notin> set ?ks) ?xs = filter (\<lambda>(k, e). \<not> is_expired now e) ?xs"
    by (intro filter_cong) auto
  then show ?thesis
    by (simp add: cleanup_expired_def fold_delete_filter Let_def)
qed

text \<open>With a positive bound the eviction loop drops a prefix and never raises.\<close>

lemma evict_while_full_drop:
  "0 < n \<Longrightarrow>
   evict_while_full n xs = (Inr (), drop (nat (int (length xs) + 1 - n)) xs)"
proof (induction xs)
  case Nil
  then show ?case by simp
next
  case (Cons x xs)
  show ?case
  proof (cases "int (length (x # xs)) \<ge> n")
    case True
    then have "nat (int (length (x # xs)) + 1 - n) = Suc (nat (int (length xs) + 1 - n))"
      using Cons.prems by simp
    with True Cons show ?thesis by simp
  next
    case False
    then show ?thesis by simp
  qed
qed

text \<open>With a bound of zero or less it empties the dictionary and raises.\<close>

lemma evict_while_full_raises:
  "n \<le> 0 \<Longrightarrow> evict_while_full n xs = (Inl KeyError, [])"
  by (induction xs) auto

lemma length_update_le: "length (AList.update k v xs) \<le> Suc (length xs)"
  by (induction xs) auto

lemma distinct_filter_keys:
  "distinct (map fst xs) \<Longrightarrow> distinct (map fst (filter P xs))"
  by (induction xs) (auto simp: image_iff)

lemma distinct_drop_keys:
  "distinct (map fst xs) \<Longrightarrow> distinct (map fst (drop n xs))"
  by (simp add: drop_map [symmetric])

lemma put_result:
  fixes c :: "('k, 'v) MemoryCache"
  assumes "0 < max_size c" and "distinct (map fst (cache_data c))"
  shows "MemoryCache_put now key v t c =
     (Inr (), c\<lparr>cache_data := AList.update key
        \<lparr>data = v, timestamp = now, ttl = ttl_or_default t (default_ttl c)\<rparr>
        (drop (nat (int (length (filter (\<lambda>(k, e). \<not> is_expired now e) (cache_data c))) + 1
                      - max_size c))
           (filter (\<lambda>(k, e). \<not> is_expired now e) (cache_data c)))\<rparr>)"
proof -
  have m: "max_size (cleanup_expired now c) = max_size c"
    "default_ttl (cleanup_expired now c) = default_ttl c"
    by (simp_all add: cleanup_expired_def Let_def)
  show ?thesis
    unfolding MemoryCache_put_def Let_def m cleanup_expired_filter [OF assms(2)]
      evict_while_full_drop [OF assms(1)]
    by (simp add: cleanup_expired_def Let_def)
qed

text \<open>
  On a cache whose bound \<open>max_size\<close> is at least one (the keys of a dictionary are
  distinct), \<open>put\<close> returns normally, and the dictionary it leaves is obtained in three
  steps: the entries that are expired at the time of the call are removed (the sweep);
  from the front of what remains just as many entries are dropped as it takes to bring
  the size below \<open>max_size\<close> (none when it already is below); the new entry is stored
  under its key, in the place of the key when it is present and at the end otherwise.
  The size after \<open>put\<close> is at most \<open>max_size\<close>, and the keys are still distinct.
\<close>

lemma put_sweeps_evicts_inserts:
  fixes c :: "('k, 'v) MemoryCache"
  assumes "0 < max_size c" and "distinct (map fst (cache_data c))"
  shows "\<exists>c'. MemoryCache_put now key v t c = (Inr (), c') \<and>
     cache_data c' =
       AList.update key \<lparr>data = v, timestamp = now, ttl = ttl_or_default t (default_ttl c)\<rparr>
        (drop (nat (int (length (filter (\<lambda>(k, e). \<not> is_expired now e) (cache_data c))) + 1
                      - max_size c))
           (filter (\<lambda>(k, e). \<not> is_expired now e) (cache_data c))) \<and>
     int (length (cache_data c')) \<le> max_size c \<and>
     max_size c' = max_size c \<and>
     distinct (map fst (cache_data c'))"
proof -
  let ?swept = "filter (\<lambda>(k, e). \<not> is_expired now e) (cache_data c)"
  let ?kept = "drop (nat (int (length ?swept) + 1 - max_size c)) ?swept"
  let ?entry = "\<lparr>data = v, timestamp = now, ttl = ttl_or_default t (default_ttl c)\<rparr>"
  have "int (length ?kept) < max_size c"
    using assms(1) by simp
  moreover have "length (AList.update key ?entry ?kept) \<le> Suc (length ?kept)"
    by (rule length_update_le)
  ultimately have size: "int (length (AList.update key ?entry ?kept)) \<le> max_size c"
    by linarith
  have "distinct (map fst ?kept)"
    using assms(2) by (intro distinct_drop_keys distinct_filter_keys)
  then have dist: "distinct (map fst (AList.update key ?entry ?kept))"
    by (rule AList.distinct_update)
  show ?thesis
    using put_result [OF assms, of now key v t] size dist by simp
qed

text \<open>
  A cache of size two holding \<open>a\<close> (expired), \<open>b\<close> and \<open>c\<close>, in this order: putting
  \<open>d\<close> sweeps \<open>a\<close>, evicts \<open>b\<close>, the least recently used of the two that remain,
  and appends \<open>d\<close>.
\<close>

lemma put_sweeps_evicts_inserts_example:
  "0 < max_size \<lparr>max_size = 2, default_ttl = 300,
             cache_data = [(''a'', \<lparr>data = 1::nat, timestamp = 0, ttl = 50\<rparr>),
                           (''b'', \<lparr>data = 2, timestamp = 10, ttl = 300\<rparr>),
                           (''c'', \<lparr>data = 3, timestamp = 20, ttl = 300\<rparr>)]\<rparr> \<and>
   distinct [''a'', ''b'', ''c''] \<and>
   (\<exists>c'. MemoryCache_put 100 ''d'' (4::nat) None
            \<lparr>max_size = 2, default_ttl = 300,
             cache_data = [(''a'', \<lparr>data = 1, timestamp = 0, ttl = 50\<rparr>),
                           (''b'', \<lparr>data = 2, timestamp = 10, ttl = 300\<rparr>),
                           (''c'', \<lparr>data = 3, timestamp = 20, ttl = 300\<rparr>)]\<rparr> = (Inr (), c') \<and>
        cache_data c' = [(''c'', \<lparr>data = 3, timestamp = 20, ttl = 300\<rparr>),
                         (''d'', \<lparr>data = 4, timestamp = 100, ttl = 300\<rparr>)])"
proof -
  let ?c = "\<lparr>max_size = 2, default_ttl = 300,
             cache_data = [(''a'', \<lparr>data = 1::nat, timestamp = 0, ttl = 50\<rparr>),
                           (''b'', \<lparr>data = 2, timestamp = 10, ttl = 300\<rparr>),
                           (''c'', \<lparr>data = 3, timestamp = 20, ttl = 300\<rparr>)]\<rparr>"
  have h1: "0 < max_size ?c" by simp
  have h2: "distinct (map fst (cache_data ?c))" by simp
  from put_sweeps_evicts_inserts [OF h1 h2, of 100 "''d''" 4 None]
  have "\<exists>c'. MemoryCache_put 100 ''d'' 4 None ?c = (Inr (), c') \<and>
        cache_data c' = [(''c'', \<lparr>data = 3, timestamp = 20, ttl = 300\<rparr>),
                         (''d'', \<lparr>data = 4, timestamp = 100, ttl = 300\<rparr>)] \<and>
        int (length (cache_data c')) \<le> 2 \<and> max_size c' = 2 \<and>
        distinct (map fst (cache_data c'))"
    by (simp add: is_expired_def ttl_or_default_def)
  then show ?thesis by auto
qed

text \<open>
  The front of the dictionary is the least recently used end as far as \<open>get\<close> goes.  In
  a full cache with no expired entry, whose first key is \<open>k\<close> and whose second key is
  \<open>k2\<close>: a \<open>get\<close> of \<open>k\<close> returns its value and moves \<open>k\<close> to the end, so that the
  \<open>put\<close> of a new key that follows evicts \<open>k2\<close> and keeps \<open>k\<close>; without the \<open>get\<close>,
  the same \<open>put\<close> evicts \<open>k\<close>.
\<close>

lemma update_absent_key:
  "key \<notin> fst ` set ys \<Longrightarrow> AList.update key entry ys = ys @ [(key, entry)]"
  by (induction ys) auto

lemma get_refreshes_eviction_order:
  fixes c :: "('k, 'v) MemoryCache"
  assumes xs: "cache_data c = (k, e) # (k2, e2) # rest"
    and dist: "distinct (map fst (cache_data c))"
    and full: "max_size c = int (length (cache_data c))"
    and live: "\<forall>x \<in> set (cache_data c). \<not> is_expired now (snd x)"
    and new: "key \<notin> fst ` set (cache_data c)"
  shows "MemoryCache_get now k c =
         (Some (data e), c\<lparr>cache_data := (k2, e2) # rest @ [(k, e)]\<rparr>)"
    and "cache_data (snd (MemoryCache_put now key v t (snd (MemoryCache_get now k c)))) =
         rest @ [(k, e),
           (key, \<lparr>data = v, timestamp = now, ttl = ttl_or_default t (default_ttl c)\<rparr>)]"
    and "cache_data (snd (MemoryCache_put now key v t c)) =
         (k2, e2) # rest @
           [(key, \<lparr>data = v, timestamp = now, ttl = ttl_or_default t (default_ttl c)\<rparr>)]"
proof -
  let ?entry = "\<lparr>data = v, timestamp = now, ttl = ttl_or_default t (default_ttl c)\<rparr>"
  let ?c1 = "c\<lparr>cache_data := (k2, e2) # rest @ [(k, e)]\<rparr>"
  from xs dist have k: "k \<noteq> k2" "k \<notin> fst ` set rest" by auto
  then have del: "AList.delete k ((k2, e2) # rest) = (k2, e2) # rest"
    by (intro AList.delete_id) auto
  from live xs have e: "\<not> is_expired now e" by simp
  show get: "MemoryCache_get now k c = (Some (data e), ?c1)"
    using e del by (simp add: MemoryCache_get_def xs move_to_end_def)
  have all1: "filter (\<lambda>(k, e). \<not> is_expired now e) (cache_data ?c1) = cache_data ?c1"
    using live xs by (auto simp: filter_id_conv)
  have all0: "filter (\<lambda>(k, e). \<not> is_expired now e) (cache_data c) = cache_data c"
    using live by (auto simp: filter_id_conv)
  have pos: "0 < max_size c" "0 < max_size ?c1" using full xs by simp_all
  have d1: "distinct (map fst (cache_data ?c1))" using dist xs by auto
  from new xs have fresh: "key \<notin> fst ` set (rest @ [(k, e)])"
    "key \<notin> fst ` set ((k2, e2) # rest)"
    by auto
  show "cache_data (snd (MemoryCache_put now key v t (snd (MemoryCache_get now k c)))) =
         rest @ [(k, e), (key, ?entry)]"
    unfolding get snd_conv put_result [OF pos(2) d1] all1
    using full xs update_absent_key [OF fresh(1), of ?entry] by simp
  show "cache_data (snd (MemoryCache_put now key v t c)) = (k2, e2) # rest @ [(key, ?entry)]"
    unfolding put_result [OF pos(1) dist] all0
    using full xs update_absent_key [OF fresh(2), of ?entry] by simp
qed

text \<open>
  C6.  The claim fails for a key that is written again.  \<open>put\<close> stores the entry with
  \<open>self._data[key] = entry\<close>, which leaves a key that is present in its place, where
  \<open>get\<close> calls \<open>move_to_end\<close>.  In a cache of at most three entries, after
  \<open>put('a')\<close>, \<open>put('b')\<close>, \<open>put('a')\<close>, \<open>put('c')\<close> at the times 0, 1, 2, 3 the key
  \<open>a\<close> is still first, before \<open>b\<close>, although \<open>b\<close> is the key used least recently,
  and \<open>put('d')\<close> at time 4 evicts \<open>a\<close> and keeps \<open>b\<close>.  When the third call is
  \<open>get('a')\<close>, the same \<open>put('d')\<close> evicts \<open>b\<close> and keeps \<open>a\<close>.
\<close>

theorem rewritten_key_evicted_before_older:
  "rewritten_key_cache =
     \<lparr>max_size = 3, default_ttl = 300,
      cache_data = [(''a'', \<lparr>data = 2, timestamp = 2, ttl = 300\<rparr>),
                    (''b'', \<lparr>data = 1, timestamp = 1, ttl = 300\<rparr>),
                    (''c'', \<lparr>data = 3, timestamp = 3, ttl = 300\<rparr>)]\<rparr> \<and>
   MemoryCache_put 4 ''d'' 4 None rewritten_key_cache =
     (Inr (),
      \<lparr>max_size = 3, default_ttl = 300,
       cache_data = [(''b'', \<lparr>data = 1, timestamp = 1, ttl = 300\<rparr>),
                     (''c'', \<lparr>data = 3, timestamp = 3, ttl = 300\<rparr>),
                     (''d'', \<lparr>data = 4, timestamp = 4, ttl = 300\<rparr>)]\<rparr>) \<and>
   MemoryCache_put 4 ''d'' 4 None read_key_cache =
     (Inr (),
      \<lparr>max_size = 3, default_ttl = 300,
       cache_data = [(''a'', \<lparr>data = 0, timestamp = 0, ttl = 300\<rparr>),
                     (''c'', \<lparr>data = 3, timestamp = 3, ttl = 300\<rparr>),
                     (''d'', \<lparr>data = 4, timestamp = 4, ttl = 300\<rparr>)]\<rparr>)"
  by (simp add: rewritten_key_cache_def read_key_cache_def MemoryCache_put_def
      MemoryCache_get_def move_to_end_def is_expired_def new_MemoryCache_def
      cleanup_expired_def ttl_or_default_def Let_def)

text \<open>
  After \<open>put(k, v, ttl=t)\<close> with \<open>t\<close> other than zero, \<open>get(k)\<close> at a time \<open>now'\<close>
  returns \<open>v\<close> and leaves \<open>k\<close> last in the order while \<open>now' - now \<le> t\<close>, and
  returns nothing and removes the entry once \<open>now' - now > t\<close>.
\<close>

lemma put_then_get:
  fixes c :: "('k, 'v) MemoryCache"
  assumes "0 < max_size c" and "distinct (map fst (cache_data c))" and "t \<noteq> 0"
  shows "\<exists>c'. MemoryCache_put now key v (Some t) c = (Inr (), c') \<and>
     (now' - now \<le> t \<longrightarrow>
        (\<exists>c''. MemoryCache_get now' key c' = (Some v, c'') \<and>
               cache_data c'' \<noteq> [] \<and> fst (last (cache_data c'')) = key)) \<and>
     (now' - now > t \<longrightarrow>
        (\<exists>c''. MemoryCache_get now' key c' = (None, c'') \<and>
               map_of (cache_data c'') key = None))"
proof -
  from put_result [OF assms(1,2), of now key v "Some t"]
  obtain c' xs where c': "MemoryCache_put now key v (Some t) c = (Inr (), c')"
    "cache_data c' = AList.update key \<lparr>data = v, timestamp = now, ttl = t\<rparr> xs"
    using assms(3) by (auto simp: ttl_or_default_def)
  have look: "map_of (cache_data c') key = Some \<lparr>data = v, timestamp = now, ttl = t\<rparr>"
    by (simp add: c'(2) AList.update_conv')
  show ?thesis
    using c'(1) look
    by (auto simp: MemoryCache_get_def is_expired_def move_to_end_def AList.delete_conv')
qed

text \<open>
  C5.  The claim fails for a TTL of zero.  \<open>put\<close> reads \<open>ttl or self.default_ttl\<close>, so
  an entry put with \<open>ttl=0\<close> gets the default TTL: put at time \<open>0\<close> into an empty cache
  with the default TTL of 300 seconds, it is stored with a TTL of 300, and \<open>get\<close> still
  returns the value one second later, when the TTL asked for has long elapsed.
\<close>

theorem put_zero_ttl_gets_default:
  "MemoryCache_put 0 ''k'' ''v'' (Some 0) (new_MemoryCache CACHE_MAX_SIZE CACHE_TTL) =
     (Inr (),
      \<lparr>max_size = 1000, default_ttl = 300,
       cache_data = [(''k'', \<lparr>data = ''v'', timestamp = 0, ttl = 300\<rparr>)]\<rparr>) \<and>
   fst (MemoryCache_get 1 ''k''
          \<lparr>max_size = 1000, default_ttl = 300,
           cache_data = [(''k'', \<lparr>data = ''v'', timestamp = 0, ttl = 300\<rparr>)]\<rparr>) = Some ''v''"
  by (simp add: MemoryCache_put_def MemoryCache_get_def new_MemoryCache_def cleanup_expired_def
      ttl_or_default_def is_expired_def CACHE_MAX_SIZE_def CACHE_TTL_def Let_def)

section \<open>Properties of the retry delay\<close>

text \<open>The largest float is below \<open>2 ^ 1024\<close> and not below \<open>2 ^ 53 - 1\<close>.\<close>

lemma float_max_less: "float_max < 2 ^ 1024"
  by (simp add: float_max_def)

lemma float_max_ge: "2 ^ 53 - 1 \<le> float_max"
proof -
  have "(1::real) \<le> 2 ^ 971" by (rule one_le_power) simp
  moreover have "(2::real) ^ 1024 = 2 ^ 53 * 2 ^ 971" by (simp add: power_add [symmetric])
  ultimately show ?thesis
    by (simp add: float_max_def algebra_simps mult_left_mono)
qed

lemma exponential_delay_no_jitter:
  assumes "strategy config = StrategyName ''exponential_backoff''" and "\<not> jitter config"
    and "\<bar>backoff_factor config ^ n\<bar> \<le> float_max"
  shows "calculate_delay config w n rt =
         (Inr (min (base_delay config * backoff_factor config ^ n) (max_delay config)), rt)"
  using assms by (simp add: calculate_delay_def float_pow_def)

lemma exponential_delay_jitter:
  assumes "strategy config = StrategyName ''exponential_backoff''" and "jitter config"
    and "\<bar>backoff_factor config ^ n\<bar> \<le> float_max"
  shows "fst (calculate_delay config w n rt) =
         Inr (max 0 (min (base_delay config * backoff_factor config ^ n) (max_delay config) +
                (- 0.1 + (0.1 - - 0.1) * random_random w (randoms_drawn rt)) *
                min (base_delay config * backoff_factor config ^ n) (max_delay config)))"
  using assms by (simp add: calculate_delay_def float_pow_def random_uniform_def Let_def)

lemma exponential_delay_overflow:
  assumes "strategy config = StrategyName ''exponential_backoff''"
    and "float_max < \<bar>backoff_factor config ^ n\<bar>"
  shows "calculate_delay config w n rt = (Inl OverflowError, rt)"
  using assms by (simp add: calculate_delay_def float_pow_def)

lemma jittered_delay_range:
  fixes d u cap :: real
  assumes "d \<le> cap" and "0 \<le> cap" and "- 0.1 \<le> u" and "u \<le> 0.1"
  shows "0 \<le> max 0 (d + u * d) \<and> max 0 (d + u * d) \<le> 1.1 * cap"
proof -
  have top: "0 \<le> 1.1 * cap" using assms(2) by simp
  have "d + u * d \<le> 1.1 * cap"
  proof (cases "0 \<le> d")
    case True
    have "u * d \<le> 0.1 * d" using assms(4) True by (rule mult_right_mono)
    then have "d + u * d \<le> 1.1 * d" by simp
    also have "\<dots> \<le> 1.1 * cap" using assms(1) by simp
    finally show ?thesis .
  next
    case False
    then have neg: "d \<le> 0" by simp
    have "0 \<le> 1 + u" using assms(3) by simp
    then have "(1 + u) * d \<le> 0" using neg by (rule mult_nonneg_nonpos)
    then have "d + u * d \<le> 0" by (simp add: algebra_simps)
    with top show ?thesis by linarith
  qed
  with top show ?thesis by (simp only: max.cobounded1 max.bounded_iff simp_thms)
qed

text \<open>
  The policy of \<open>Config.get_retry_config\<close> holds a member of the enum, which is equal to
  neither strategy name: the client computes the fixed delay, whatever the attempt.
\<close>

lemma configured_policy_is_fixed_delay:
  "fst (calculate_delay get_retry_config w n rt) =
     Inr (max 0 (1 + (- 0.1 + 0.2 * random_random w (randoms_drawn rt)) * 1))"
  by (simp add: calculate_delay_def get_retry_config_def new_RetryConfig_def
      random_uniform_def Let_def)

text \<open>
  C7, as amended.  For a policy whose strategy is the name \<open>exponential_backoff\<close> and an
  attempt number \<open>n\<close>: when the power \<open>backoff_factor ** n\<close> lies beyond the largest
  float, the computation raises \<open>OverflowError\<close> and there is no delay; otherwise a delay
  is returned, which without jitter is at most \<open>max_delay\<close>, and with jitter (and
  \<open>max_delay\<close> not negative) lies between zero and \<open>1.1 * max_delay\<close>, the jitter being
  applied after the delay is capped.  Without jitter the delay is non-decreasing in \<open>n\<close>
  when \<open>base_delay\<close> is not negative and \<open>backoff_factor\<close> is at least one, up to the
  last attempt number whose power is a float.  A policy whose strategy is a member of the
  enum \<open>RetryStrategy\<close> is not such a policy: its delay is \<open>base_delay\<close> for every
  attempt, with no cap, and with jitter within ten percent of it.  The policy of
  \<open>Config.get_retry_config\<close> is of that kind, with a delay between \<open>0.9\<close> and \<open>1.1\<close>
  seconds.
\<close>

theorem exponential_delay_bounds:
  "(strategy config = StrategyName ''exponential_backoff'' \<and>
    float_max < \<bar>backoff_factor config ^ n\<bar> \<longrightarrow>
      calculate_delay config w n rt = (Inl OverflowError, rt)) \<and>
   (strategy config = StrategyName ''exponential_backoff'' \<and>
    \<bar>backoff_factor config ^ n\<bar> \<le> float_max \<and> \<not> jitter config \<longrightarrow>
      (\<exists>d. calculate_delay config w n rt = (Inr d, rt) \<and> d \<le> max_delay config)) \<and>
   (strategy config = StrategyName ''exponential_backoff'' \<and>
    \<bar>backoff_factor config ^ n\<bar> \<le> float_max \<and> \<not> jitter config \<and>
    0 \<le> base_delay config \<and> 1 \<le> backoff_factor config \<and> m \<le> n \<longrightarrow>
      (\<exists>d d'. calculate_delay config w m rt = (Inr d, rt) \<and>
         calculate_delay config w n rt = (Inr d', rt) \<and> d \<le> d')) \<and>
   (strategy config = StrategyName ''exponential_backoff'' \<and>
    \<bar>backoff_factor config ^ n\<bar> \<le> float_max \<and> jitter config \<and> 0 \<le> max_delay config \<and>
    0 \<le> random_random w (randoms_drawn rt) \<and> random_random w (randoms_drawn rt) \<le> 1 \<longrightarrow>
      (\<exists>d. fst (calculate_delay config w n rt) = Inr d \<and> 0 \<le> d \<and>
         d \<le> 1.1 * max_delay config)) \<and>
   (strategy config = StrategyMember s \<and> \<not> jitter config \<longrightarrow>
      calculate_delay config w n rt = (Inr (base_delay config), rt)) \<and>
   (strategy config = StrategyMember s \<and> jitter config \<longrightarrow>
      fst (calculate_delay config w n rt) =
        Inr (max 0 (base_delay config +
               (- 0.1 + 0.2 * random_random w (randoms_drawn rt)) * base_delay config))) \<and>
   strategy get_retry_config = StrategyMember EXPONENTIAL_BACKOFF \<and>
   (0 \<le> random_random w (randoms_drawn rt) \<and> random_random w (randoms_drawn rt) \<le> 1 \<longrightarrow>
      fst (calculate_delay get_retry_config w n rt) =
        Inr (9 / 10 + random_random w (randoms_drawn rt) / 5))"
proof (intro conjI)
  show "strategy config = StrategyName ''exponential_backoff'' \<and>
    float_max < \<bar>backoff_factor config ^ n\<bar> \<longrightarrow>
      calculate_delay config w n rt = (Inl OverflowError, rt)"
    by (simp add: exponential_delay_overflow)
next
  show "strategy config = StrategyName ''exponential_backoff'' \<and>
    \<bar>backoff_factor config ^ n\<bar> \<le> float_max \<and> \<not> jitter config \<longrightarrow>
      (\<exists>d. calculate_delay config w n rt = (Inr d, rt) \<and> d \<le> max_delay config)"
    by (simp add: exponential_delay_no_jitter)
next
  show "strategy config = StrategyName ''exponential_backoff'' \<and>
    \<bar>backoff_factor config ^ n\<bar> \<le> float_max \<and> \<not> jitter config \<and>
    0 \<le> base_delay config \<and> 1 \<le> backoff_factor config \<and> m \<le> n \<longrightarrow>
      (\<exists>d d'. calculate_delay config w m rt = (Inr d, rt) \<and>
         calculate_delay config w n rt = (Inr d', rt) \<and> d \<le> d')"
  proof (rule impI)
    assume h: "strategy config = StrategyName ''exponential_backoff'' \<and>
      \<bar>backoff_factor config ^ n\<bar> \<le> float_max \<and> \<not> jitter config \<and>
      0 \<le> base_delay config \<and> 1 \<le> backoff_factor config \<and> m \<le> n"
    then have le: "backoff_factor config ^ m \<le> backoff_factor config ^ n"
      by (simp add: power_increasing)
    from h have "0 \<le> backoff_factor config ^ m" by simp
    with le h have small: "\<bar>backoff_factor config ^ m\<bar> \<le> float_max" by linarith
    from le h have "base_delay config * backoff_factor config ^ m
                 \<le> base_delay config * backoff_factor config ^ n"
      by (simp add: mult_left_mono)
    then have "min (base_delay config * backoff_factor config ^ m) (max_delay config)
               \<le> min (base_delay config * backoff_factor config ^ n) (max_delay config)"
      by (simp add: min_le_iff_disj)
    moreover from h have e: "strategy config = StrategyName ''exponential_backoff''"
      and j: "\<not> jitter config" and b: "\<bar>backoff_factor config ^ n\<bar> \<le> float_max"
      by blast+
    note exponential_delay_no_jitter [OF e j small, of w rt]
      exponential_delay_no_jitter [OF e j b, of w rt]
    ultimately show "\<exists>d d'. calculate_delay config w m rt = (Inr d, rt) \<and>
         calculate_delay config w n rt = (Inr d', rt) \<and> d \<le> d'"
      by blast
  qed
next
  show "strategy config = StrategyName ''exponential_backoff'' \<and>
    \<bar>backoff_factor config ^ n\<bar> \<le> float_max \<and> jitter config \<and> 0 \<le> max_delay config \<and>
    0 \<le> random_random w (randoms_drawn rt) \<and> random_random w (randoms_drawn rt) \<le> 1 \<longrightarrow>
      (\<exists>d. fst (calculate_delay config w n rt) = Inr d \<and> 0 \<le> d \<and>
         d \<le> 1.1 * max_delay config)"
  proof (rule impI)
    assume h: "strategy config = StrategyName ''exponential_backoff'' \<and>
      \<bar>backoff_factor config ^ n\<bar> \<le> float_max \<and> jitter config \<and> 0 \<le> max_delay config \<and>
      0 \<le> random_random w (randoms_drawn rt) \<and> random_random w (randoms_drawn rt) \<le> 1"
    define d where "d = min (base_delay config * backoff_factor config ^ n) (max_delay config)"
    define u where "u = - 0.1 + (0.1 - - 0.1) * random_random w (randoms_drawn rt)"
    from h have u: "- 0.1 \<le> u" "u \<le> 0.1" by (simp_all add: u_def)
    have val: "fst (calculate_delay config w n rt) = Inr (max 0 (d + u * d))"
      using h unfolding d_def u_def by (simp only: exponential_delay_jitter)
    have d: "d \<le> max_delay config" by (simp add: d_def)
    from h have cap: "0 \<le> max_delay config" by simp
    from jittered_delay_range [OF d cap u]
    show "\<exists>d. fst (calculate_delay config w n rt) = Inr d \<and> 0 \<le> d \<and>
         d \<le> 1.1 * max_delay config"
      unfolding val by blast
  qed
next
  show "strategy config = StrategyMember s \<and> \<not> jitter config \<longrightarrow>
      calculate_delay config w n rt = (Inr (base_delay config), rt)"
    by (simp add: calculate_delay_def)
next
  show "strategy config = StrategyMember s \<and> jitter config \<longrightarrow>
      fst (calculate_delay config w n rt) =
        Inr (max 0 (base_delay config +
               (- 0.1 + 0.2 * random_random w (randoms_drawn rt)) * base_delay config))"
    by (simp add: calculate_delay_def random_uniform_def Let_def)
next
  show "strategy get_retry_config = StrategyMember EXPONENTIAL_BACKOFF"
    by (simp add: get_retry_config_def new_RetryConfig_def)
next
  show "0 \<le> random_random w (randoms_drawn rt) \<and> random_random w (randoms_drawn rt) \<le> 1 \<longrightarrow>
      fst (calculate_delay get_retry_config w n rt) =
        Inr (9 / 10 + random_random w (randoms_drawn rt) / 5)"
    by (simp add: configured_policy_is_fixed_delay max_def)
qed

theorem exponential_delay_bounds_witness:
  "strategy new_RetryConfig = StrategyName ''exponential_backoff'' \<and>
   jitter new_RetryConfig \<and> \<not> jitter (new_RetryConfig\<lparr>jitter := False\<rparr>) \<and>
   \<bar>backoff_factor new_RetryConfig ^ 6\<bar> \<le> float_max \<and>
   float_max < \<bar>backoff_factor new_RetryConfig ^ 1024\<bar> \<and>
   calculate_delay new_RetryConfig (scripted_world (\<lambda>n u t. Response ())) 1024 new_runtime =
     (Inl OverflowError, new_runtime) \<and>
   calculate_delay (new_RetryConfig\<lparr>jitter := False\<rparr>)
     (scripted_world (\<lambda>n u t. Response ())) 6 new_runtime = (Inr 60, new_runtime) \<and>
   calculate_delay (new_RetryConfig\<lparr>jitter := False\<rparr>)
     (scripted_world (\<lambda>n u t. Response ())) 2 new_runtime = (Inr 4, new_runtime) \<and>
   fst (calculate_delay new_RetryConfig
          (scripted_world (\<lambda>n u t. Response ())) 6 new_runtime) = Inr 60 \<and>
   strategy (get_retry_config\<lparr>jitter := False\<rparr>) = StrategyMember EXPONENTIAL_BACKOFF \<and>
   calculate_delay (get_retry_config\<lparr>jitter := False\<rparr>)
     (scripted_world (\<lambda>n u t. Response ())) 6 new_runtime = (Inr 1, new_runtime) \<and>
   strategy get_retry_config = StrategyMember EXPONENTIAL_BACKOFF \<and>
   jitter get_retry_config \<and>
   fst (calculate_delay get_retry_config
          (scripted_world (\<lambda>n u t. Response ())) 6 new_runtime) = Inr 1"
proof -
  let ?w = "scripted_world (\<lambda>n u t. Response ())"
  have big: "float_max < \<bar>(2::real) ^ 1024\<bar>" using float_max_less by simp
  have small: "\<bar>(2::real) ^ 6\<bar> \<le> float_max" using float_max_ge by simp
  from exponential_delay_bounds [of new_RetryConfig 1024 ?w new_runtime 0 EXPONENTIAL_BACKOFF]
    exponential_delay_bounds
      [of "new_RetryConfig\<lparr>jitter := False\<rparr>" 6 ?w new_runtime 2 EXPONENTIAL_BACKOFF]
    exponential_delay_bounds [of new_RetryConfig 6 ?w new_runtime 2 EXPONENTIAL_BACKOFF]
    exponential_delay_bounds
      [of "get_retry_config\<lparr>jitter := False\<rparr>" 6 ?w new_runtime 2 EXPONENTIAL_BACKOFF]
    exponential_delay_bounds [of get_retry_config 6 ?w new_runtime 2 EXPONENTIAL_BACKOFF]
    big small
  show ?thesis
    by (simp add: new_RetryConfig_def get_retry_config_def scripted_world_def new_runtime_def
        calculate_delay_def float_pow_def random_uniform_def Let_def)
qed

text \<open>
  C7 as stated fails.  With the defaults of \<open>RetryConfig\<close> (exponential, base 1, factor
  2, cap 60, jitter on) attempt 6 has the capped delay 60, and a draw of \<open>0.95\<close> from
  \<open>random()\<close> adds 9 percent: the delay is 65.4.  Without jitter, a factor of one half
  gives the delay 1 for attempt 0 and one half for attempt 1, and the factor 2 gives no
  delay for attempt 1024: \<open>2.0 ** 1024\<close> raises \<open>OverflowError\<close>.
\<close>

theorem jittered_delay_exceeds_max_delay:
  "strategy new_RetryConfig = StrategyName ''exponential_backoff'' \<and>
   max_delay new_RetryConfig = 60 \<and>
   fst (calculate_delay new_RetryConfig
          ((scripted_world (\<lambda>n u t. Response ()))\<lparr>random_random := (\<lambda>_. 19 / 20)\<rparr>)
          6 new_runtime) = Inr (327 / 5) \<and>
   \<not> jitter (new_RetryConfig\<lparr>jitter := False, backoff_factor := 1 / 2\<rparr>) \<and>
   fst (calculate_delay (new_RetryConfig\<lparr>jitter := False, backoff_factor := 1 / 2\<rparr>)
          (scripted_world (\<lambda>n u t. Response ())) 0 new_runtime) = Inr 1 \<and>
   fst (calculate_delay (new_RetryConfig\<lparr>jitter := False, backoff_factor := 1 / 2\<rparr>)
          (scripted_world (\<lambda>n u t. Response ())) 1 new_runtime) = Inr (1 / 2) \<and>
   fst (calculate_delay (new_RetryConfig\<lparr>jitter := False\<rparr>)
          (scripted_world (\<lambda>n u t. Response ())) 1024 new_runtime) = Inl OverflowError"
proof -
  have small: "(64::real) \<le> float_max" "(1::real) \<le> float_max" "(1 / 2::real) \<le> float_max"
    using float_max_ge by simp_all
  have big: "float_max < (2::real) ^ 1024" by (rule float_max_less)
  show ?thesis
    using small big
    by (simp add: calculate_delay_def float_pow_def new_RetryConfig_def scripted_world_def
        new_runtime_def random_uniform_def Let_def)
qed

section \<open>Properties of the fetcher\<close>

lemma add_request_InlD:
  "add_request s t c m = (Inl e, m') \<Longrightarrow> total_requests m = - 1"
  by (auto simp: add_request_def Let_def split: if_splits)

lemma add_request_InrD:
  "add_request s t c m = (Inr u, m') \<Longrightarrow>
     total_requests m' = total_requests m + 1 \<and>
     successful_requests m' = successful_requests m + (if s then 1 else 0) \<and>
     failed_requests m' = failed_requests m + (if s then 0 else 1) \<and>
     retry_attempts m' = retry_attempts m"
  by (auto simp: add_request_def Let_def split: if_splits)

lemma get_page_try_raises:
  assumes "0 \<le> total_requests (metrics c)"
    and "get_page_try w url timeout use_cache start (c, rt) = (Inl e, b, c1, rt1)"
  shows "metrics c1 = metrics c \<and> b = False"
  using assms
  unfolding get_page_try_def Let_def
  by (auto split: prod.splits sum.splits option.splits if_splits dest: add_request_InlD)

lemma get_page_try_returns:
  assumes "get_page_try w url timeout use_cache start (c, rt) = (Inr r, b, c1, rt1)"
  shows "r \<noteq> None \<and> total_requests (metrics c1) = total_requests (metrics c) + 1 \<and>
     successful_requests (metrics c1) = successful_requests (metrics c) + 1 \<and>
     failed_requests (metrics c1) = failed_requests (metrics c)"
  using assms
  unfolding get_page_try_def Let_def
  by (auto split: prod.splits sum.splits option.splits if_splits dest: add_request_InrD)

text \<open>
  C1.  On a client whose request counter is not negative (it starts at zero and is only
  incremented), \<open>get_page\<close> returns for every URL, timeout and cache flag, in every
  environment: no exception leaves it.  Every call counts one request.  Whenever its
  \<open>try\<close> block raises, whatever the exception (the last retryable error when the
  attempts are exhausted, \<open>NonRetryableError\<close> for a fatal or unexpected one, an error
  of the cache), the result is \<open>None\<close>, one failed request is counted, none is counted
  as successful, and the error is logged; when the block returns, the result is the page.
\<close>

theorem get_page_never_raises:
  assumes "0 \<le> total_requests (metrics c)"
  shows "\<exists>r c' rt'. get_page w url timeout use_cache (c, rt) = (Inr r, c', rt') \<and>
     total_requests (metrics c') = total_requests (metrics c) + 1 \<and>
     (\<forall>e b c1 rt1.
        get_page_try w url timeout use_cache (clock rt) (c, rt) = (Inl e, b, c1, rt1) \<longrightarrow>
        r = None \<and>
        failed_requests (metrics c') = failed_requests (metrics c) + 1 \<and>
        successful_requests (metrics c') = successful_requests (metrics c) \<and>
        logged rt' = logged rt1 @ [(ERROR, Page_error url e)]) \<and>
     (\<forall>x b c1 rt1.
        get_page_try w url timeout use_cache (clock rt) (c, rt) = (Inr x, b, c1, rt1) \<longrightarrow>
        r = x \<and> r \<noteq> None \<and> failed_requests (metrics c') = failed_requests (metrics c))"
proof -
  obtain res b c1 rt1 where
    tr: "get_page_try w url timeout use_cache (clock rt) (c, rt) = (res, b, c1, rt1)"
    by (metis prod_cases4)
  show ?thesis
  proof (cases res)
    case (Inl e)
    with tr get_page_try_raises [OF assms, of w url timeout use_cache "clock rt" rt e b c1 rt1]
    have m: "metrics c1 = metrics c" "b = False" by auto
    let ?rt = "log_at ERROR (Page_error url e) rt1"
    obtain r2 m2 where ar: "add_request False (clock ?rt - clock rt) False (metrics c) = (r2, m2)"
      by (cases "add_request False (clock ?rt - clock rt) False (metrics c)")
    have "r2 = Inr ()"
    proof (cases r2)
      case (Inl e')
      with ar add_request_InlD [of False _ False "metrics c" e' m2] assms show ?thesis by simp
    next
      case (Inr u)
      then show ?thesis by simp
    qed
    with ar add_request_InrD [of False _ False "metrics c" "()" m2]
    have m2: "total_requests m2 = total_requests (metrics c) + 1"
      "failed_requests m2 = failed_requests (metrics c) + 1"
      "successful_requests m2 = successful_requests (metrics c)" by auto
    show ?thesis
      using tr Inl m ar \<open>r2 = Inr ()\<close> m2
      by (simp add: get_page_def Let_def log_at_def)
  next
    case (Inr x)
    with tr get_page_try_returns [of w url timeout use_cache "clock rt" c rt x b c1 rt1]
    show ?thesis by (simp add: get_page_def Let_def)
  qed
qed

text \<open>A fresh client in an environment where every transport call times out.\<close>

theorem get_page_never_raises_witness:
  "0 \<le> total_requests (metrics (new_OptimizedHttpClient :: nat OptimizedHttpClient)) \<and>
   fst (get_page_try timeout_world listing_url REQUEST_TIMEOUT True (clock new_runtime)
          (new_OptimizedHttpClient, new_runtime)) = Inl RetryableError \<and>
   fst (get_page timeout_world listing_url REQUEST_TIMEOUT True
          (new_OptimizedHttpClient, new_runtime)) = Inr None \<and>
   failed_requests (metrics (fst (snd (get_page timeout_world listing_url REQUEST_TIMEOUT True
          (new_OptimizedHttpClient, new_runtime))))) = 1"
proof -
  let ?c = "new_OptimizedHttpClient :: nat OptimizedHttpClient"
  have h: "0 \<le> total_requests (metrics ?c)"
    by (simp add: new_OptimizedHttpClient_def new_PerformanceMetrics_def)
  have f0: "failed_requests (metrics ?c) = 0"
    by (simp add: new_OptimizedHttpClient_def new_PerformanceMetrics_def)
  have raised: "fst (get_page_try timeout_world listing_url REQUEST_TIMEOUT True (clock new_runtime)
          (?c, new_runtime)) = Inl RetryableError"
    by (simp add: fetch_defs timeout_world_def)
  then obtain b c1 rt1 where tr:
    "get_page_try timeout_world listing_url REQUEST_TIMEOUT True (clock new_runtime)
       (?c, new_runtime) = (Inl RetryableError, b, c1, rt1)"
    by (metis prod.collapse)
  from get_page_never_raises [OF h, of timeout_world listing_url REQUEST_TIMEOUT True new_runtime]
  obtain r c' rt' where
    g: "get_page timeout_world listing_url REQUEST_TIMEOUT True (?c, new_runtime) = (Inr r, c', rt')"
    and f: "\<forall>e b c1 rt1.
        get_page_try timeout_world listing_url REQUEST_TIMEOUT True (clock new_runtime)
          (?c, new_runtime) = (Inl e, b, c1, rt1) \<longrightarrow>
        r = None \<and> failed_requests (metrics c') = failed_requests (metrics ?c) + 1 \<and>
        successful_requests (metrics c') = successful_requests (metrics ?c) \<and>
        logged rt' = logged rt1 @ [(ERROR, Page_error listing_url e)]"
    by blast
  from f tr have "r = None" "failed_requests (metrics c') = failed_requests (metrics ?c) + 1"
    by blast+
  with g f0 h raised show ?thesis by simp
qed

lemma add_request_keeps_retry_attempts:
  "add_request s t c m = (r, m') \<Longrightarrow> retry_attempts m' = retry_attempts m"
  by (auto simp: add_request_def Let_def split: if_splits)

lemma get_page_try_keeps_retry_attempts:
  "get_page_try w url timeout use_cache start (c, rt) = (r, b, c1, rt1) \<Longrightarrow>
   retry_attempts (metrics c1) = retry_attempts (metrics c)"
  unfolding get_page_try_def Let_def
  by (auto split: prod.splits sum.splits option.splits if_splits
      dest: add_request_keeps_retry_attempts)

lemma get_page_keeps_retry_attempts:
  assumes "get_page w url timeout use_cache (c, rt) = (r, c', rt')"
  shows "retry_attempts (metrics c') = retry_attempts (metrics c)"
proof -
  obtain res b c1 rt1 where
    tr: "get_page_try w url timeout use_cache (clock rt) (c, rt) = (res, b, c1, rt1)"
    by (metis prod_cases4)
  note keep = get_page_try_keeps_retry_attempts [OF tr]
  show ?thesis
  proof (cases res)
    case (Inr x)
    with tr assms keep show ?thesis by (simp add: get_page_def Let_def)
  next
    case (Inl e)
    obtain r2 m2 where ar:
      "add_request False (clock (log_at ERROR (Page_error url e) rt1) - clock rt) b (metrics c1)
       = (r2, m2)"
      by (metis surj_pair)
    from add_request_keeps_retry_attempts [OF ar] keep
    have "retry_attempts m2 = retry_attempts (metrics c)" by simp
    with tr assms Inl ar show ?thesis
      by (auto simp: get_page_def Let_def split: sum.splits)
  qed
qed

text \<open>
  C8.  The retry loop logs a warning with the attempt number and the delay for every
  retry, but nothing increments \<open>retry_attempts\<close>: \<open>add_retry\<close> is never called, and
  \<open>get_page\<close> leaves the counter as it was (lemma \<open>get_page_keeps_retry_attempts\<close>).
  On a fresh client, a fetch whose first transport call times out and whose second one
  succeeds returns the page after two requests, with the warning of the retry logged, and
  \<open>retry_attempts\<close> is still zero.
\<close>

theorem retry_is_logged_but_not_counted:
  "fst (get_page retry_once_world listing_url REQUEST_TIMEOUT True
          (new_OptimizedHttpClient, new_runtime)) = Inr (Some 0) \<and>
   requests_sent (snd (snd (get_page retry_once_world listing_url REQUEST_TIMEOUT True
          (new_OptimizedHttpClient, new_runtime)))) = 2 \<and>
   logged (snd (snd (get_page retry_once_world listing_url REQUEST_TIMEOUT True
          (new_OptimizedHttpClient, new_runtime)))) =
     [(WARNING, Retry_attempt_failed 1 1 RetryableError),
      (DEBUG, Page_fetched listing_url), (INFO, Retry_succeeded 2)] \<and>
   retry_attempts (metrics (fst (snd (get_page retry_once_world listing_url REQUEST_TIMEOUT True
          (new_OptimizedHttpClient, new_runtime))))) = 0"
  by (simp add: fetch_defs retry_once_world_def)

section \<open>Properties of the traversals\<close>


lemma parse_forum_loop_no_url:
  "current_url t = None \<Longrightarrow> parse_forum_loop w (p, t, rt) = (p, t, rt)"
  by simp



lemma parse_topic_loop_no_url:
  "current_url t = None \<Longrightarrow> parse_topic_loop w (p, t, rt) = (p, t, rt)"
  by simp



lemma parse_topic_streaming_loop_no_url:
  "current_url t = None \<Longrightarrow> parse_topic_streaming_loop w (p, t, rt) = (p, t, rt)"
  by simp


text \<open>
  The sleep between two pages never raises, so an exception of the \<open>try\<close> block is
  raised while \<open>current_url\<close> is still the URL of the page, before any counter of the
  iteration is touched.
\<close>

lemma sleep_with_jitter_returns:
  "sleep_with_jitter w delay jitter_factor rt = (r, rt') \<Longrightarrow> r = Inr ()"
  by (auto simp: sleep_with_jitter_def random_uniform_def time_sleep_def Let_def
      split: if_splits)

lemma parse_forum_try_Inl_fields:
  "parse_forum_try w url (p, t, rt) = (Inl (e, current), p', t', rt') \<Longrightarrow>
   current = url \<and> consecutive_failures p' = consecutive_failures p \<and>
   failed_pages t' = failed_pages t \<and> page_count t' = page_count t"
  unfolding parse_forum_try_def
  by (auto simp: Let_def split: prod.splits sum.splits option.splits if_splits
      dest: sleep_with_jitter_returns)

lemma parse_topic_try_Inl_fields:
  "parse_topic_try w url (p, t, rt) = (Inl (e, current), p', t', rt') \<Longrightarrow>
   current = url \<and> consecutive_failures p' = consecutive_failures p \<and>
   failed_pages t' = failed_pages t \<and> page_count t' = page_count t"
  unfolding parse_topic_try_def
  by (auto simp: Let_def split: prod.splits sum.splits option.splits if_splits
      dest: sleep_with_jitter_returns)

lemma parse_topic_streaming_try_Inl_fields:
  "parse_topic_streaming_try w url (p, t, rt) = (Inl (e, current), p', t', rt') \<Longrightarrow>
   current = url \<and> consecutive_failures p' = consecutive_failures p \<and>
   failed_pages t' = failed_pages t \<and> page_count t' = page_count t"
  unfolding parse_topic_streaming_try_def
  by (auto simp: Let_def split: prod.splits sum.splits option.splits if_splits
      dest: sleep_with_jitter_returns)

text \<open>
  An iteration that records a failure appends its page number and increments
  \<open>consecutive_failures\<close> by one.  The counter starts at zero and is otherwise only set
  to zero, so after \<open>k\<close> failures in a row it is at least \<open>k\<close>.
\<close>

lemma parse_forum_failure_counts:
  assumes "parse_forum_iteration w url (p, t, rt) = (flow, p', t', rt')"
    and "failed_pages t' \<noteq> failed_pages t"
  shows "consecutive_failures p' = consecutive_failures p + 1 \<and>
         failed_pages t' = failed_pages t @ [page_count t + 1]"
proof -
  obtain r p1 t1 rt1 where
    tr: "parse_forum_try w url (p, t\<lparr>page_count := page_count t + 1\<rparr>, rt) = (r, p1, t1, rt1)"
    by (metis prod_cases4)
  show ?thesis
  proof (cases r)
    case (Inr fl)
    with tr assms show ?thesis
      unfolding parse_forum_iteration_def parse_forum_try_def
      by (auto simp: Let_def handle_page_failure_def
          split: prod.splits sum.splits option.splits if_splits)
  next
    case (Inl ec)
    obtain e current where ec: "ec = (e, current)" by (cases ec)
    from parse_forum_try_Inl_fields [OF tr [unfolded Inl ec]]
    have f: "consecutive_failures p1 = consecutive_failures p"
      "failed_pages t1 = failed_pages t" "page_count t1 = page_count t + 1" by simp_all
    with tr Inl ec assms(1) show ?thesis
      by (auto simp: parse_forum_iteration_def handle_page_failure_def Let_def
          split: if_splits)
  qed
qed

lemma parse_topic_failure_counts:
  assumes "parse_topic_iteration w url (p, t, rt) = (flow, p', t', rt')"
    and "failed_pages t' \<noteq> failed_pages t"
  shows "consecutive_failures p' = consecutive_failures p + 1 \<and>
         failed_pages t' = failed_pages t @ [page_count t + 1]"
proof -
  obtain r p1 t1 rt1 where
    tr: "parse_topic_try w url (p, t\<lparr>page_count := page_count t + 1\<rparr>, rt) = (r, p1, t1, rt1)"
    by (metis prod_cases4)
  show ?thesis
  proof (cases r)
    case (Inr fl)
    with tr assms show ?thesis
      unfolding parse_topic_iteration_def parse_topic_try_def
      by (auto simp: Let_def handle_page_failure_def
          split: prod.splits sum.splits option.splits if_splits)
  next
    case (Inl ec)
    obtain e current where ec: "ec = (e, current)" by (cases ec)
    from parse_topic_try_Inl_fields [OF tr [unfolded Inl ec]]
    have f: "consecutive_failures p1 = consecutive_failures p"
      "failed_pages t1 = failed_pages t" "page_count t1 = page_count t + 1" by simp_all
    with tr Inl ec assms(1) show ?thesis
      by (auto simp: parse_topic_iteration_def handle_page_failure_def Let_def
          split: if_splits)
  qed
qed

lemma parse_topic_streaming_failure_counts:
  assumes "parse_topic_streaming_iteration w url (p, t, rt) = (flow, p', t', rt')"
    and "failed_pages t' \<noteq> failed_pages t"
  shows "consecutive_failures p' = consecutive_failures p + 1 \<and>
         failed_pages t' = failed_pages t @ [page_count t + 1]"
proof -
  obtain r p1 t1 rt1 where
    tr: "parse_topic_streaming_try w url (p, t\<lparr>page_count := page_count t + 1\<rparr>, rt) = (r, p1, t1, rt1)"
    by (metis prod_cases4)
  show ?thesis
  proof (cases r)
    case (Inr fl)
    with tr assms show ?thesis
      unfolding parse_topic_streaming_iteration_def parse_topic_streaming_try_def
      by (auto simp: Let_def handle_page_failure_def
          split: prod.splits sum.splits option.splits if_splits)
  next
    case (Inl ec)
    obtain e current where ec: "ec = (e, current)" by (cases ec)
    from parse_topic_streaming_try_Inl_fields [OF tr [unfolded Inl ec]]
    have f: "consecutive_failures p1 = consecutive_failures p"
      "failed_pages t1 = failed_pages t" "page_count t1 = page_count t + 1" by simp_all
    with tr Inl ec assms(1) show ?thesis
      by (auto simp: parse_topic_streaming_iteration_def handle_page_failure_def Let_def
          split: if_splits)
  qed
qed

text \<open>
  On the normal path the cycle guard holds: when the page is fetched and read and the
  resolver returns the current URL, the loop is left and \<open>current_url\<close> is not
  assigned.
\<close>

lemma parse_forum_cycle_guard:
  assumes "get_page w url REQUEST_TIMEOUT True (http_client p, rt) = (Inr (Some page), c, rt1)"
    and "extract_topic_links w page = Inr topics"
    and "get_next_page_url w page url = Some url"
  shows "fst (parse_forum_iteration w url (p, t, rt)) = Break \<and>
         current_url (fst (snd (snd (parse_forum_iteration w url (p, t, rt))))) = current_url t"
  using assms
  by (simp add: parse_forum_iteration_def parse_forum_try_def Let_def)

lemma parse_topic_cycle_guard:
  assumes "get_page w url REQUEST_TIMEOUT True (http_client p, rt) = (Inr (Some page), c, rt1)"
    and "extract_posts_from_page w page = Inr posts_data"
    and "get_next_topic_page_url w page url = Some url"
  shows "fst (parse_topic_iteration w url (p, t, rt)) = Break \<and>
         current_url (fst (snd (snd (parse_topic_iteration w url (p, t, rt))))) = current_url t"
  using assms
  by (simp add: parse_topic_iteration_def parse_topic_try_def Let_def split: prod.splits)

lemma parse_topic_streaming_cycle_guard:
  assumes "get_page w url REQUEST_TIMEOUT True (http_client p, rt) = (Inr (Some page), c, rt1)"
    and "extract_posts_from_page w page = Inr posts_data"
    and "get_next_topic_page_url w page url = Some url"
  shows "fst (parse_topic_streaming_iteration w url (p, t, rt)) = Break \<and>
         current_url (fst (snd (snd (parse_topic_streaming_iteration w url (p, t, rt))))) = current_url t"
  using assms
  by (simp add: parse_topic_streaming_iteration_def parse_topic_streaming_try_def Let_def split: prod.splits)



text \<open>
  C3.  The cycle guard stands on the normal path only.  When the extractor raises, the
  handler takes the resolver's URL through \<open>_try_next_page_url\<close> and does not compare
  it with the current one.  In \<open>cycle_world\<close> the resolver returns the URL it is asked
  about: the listing traversal then runs five iterations on the same URL, calling
  \<open>get_page\<close> on it five times (one transport call and four cache hits), until the
  circuit breaker stops it.
\<close>

theorem cycle_refetched_on_error_path:
  "get_next_page_url cycle_world 0 listing_url = Some listing_url \<and>
   fst (parse_forum cycle_world listing_url (new_VinskiyForumParser, new_runtime)) = Inr [] \<and>
   total_failures (fst (snd (parse_forum cycle_world listing_url
      (new_VinskiyForumParser, new_runtime)))) = 5 \<and>
   page_count (fst (snd (parse_forum_loop cycle_world
      (new_VinskiyForumParser, start_traversal [] listing_url, new_runtime)))) = 5 \<and>
   failed_pages (fst (snd (parse_forum_loop cycle_world
      (new_VinskiyForumParser, start_traversal [] listing_url, new_runtime)))) = [1, 2, 3, 4, 5] \<and>
   total_requests (metrics (http_client (fst (parse_forum_loop cycle_world
      (new_VinskiyForumParser, start_traversal [] listing_url, new_runtime))))) = 5 \<and>
   logged (snd (snd (parse_forum_loop cycle_world
      (new_VinskiyForumParser, start_traversal [] listing_url, new_runtime)))) =
     [(DEBUG, Page_fetched listing_url), (WARNING, Page_failure 1),
      (DEBUG, Page_from_cache listing_url), (WARNING, Page_failure 2),
      (DEBUG, Page_from_cache listing_url), (WARNING, Page_failure 3),
      (DEBUG, Page_from_cache listing_url), (DEBUG, Page_from_cache listing_url),
      (ERROR, Too_many_errors)]"
  by (simp add: fetch_defs traversal_defs cycle_world_def listing_url_def parse_forum_def
      validate_forum_url_def retry_failed_pages_def ENABLE_ERROR_RECOVERY_def)

text \<open>
  C4 as stated fails.  In \<open>timeout_world\<close> the first fetch of the listing returns
  \<open>None\<close>; one failure is far from the threshold of five and 49 pages of budget remain,
  but the traversal is over after this one iteration and one call of \<open>get_page\<close>.
\<close>

theorem absent_page_below_threshold_terminates:
  "fst (get_page timeout_world listing_url REQUEST_TIMEOUT True
          (new_OptimizedHttpClient, new_runtime)) = Inr None \<and>
   consecutive_failures (fst (parse_forum_loop timeout_world
      (new_VinskiyForumParser, start_traversal [] listing_url, new_runtime))) = 1 \<and>
   1 < MAX_CONSECUTIVE_FAILURES \<and>
   page_count (fst (snd (parse_forum_loop timeout_world
      (new_VinskiyForumParser, start_traversal [] listing_url, new_runtime)))) = 1 \<and>
   1 < MAX_PAGES \<and>
   current_url (fst (snd (parse_forum_loop timeout_world
      (new_VinskiyForumParser, start_traversal [] listing_url, new_runtime)))) = None \<and>
   total_requests (metrics (http_client (fst (parse_forum_loop timeout_world
      (new_VinskiyForumParser, start_traversal [] listing_url, new_runtime))))) = 1"
  by (simp add: fetch_defs traversal_defs timeout_world_def listing_url_def)

lemma parse_forum_absent:
  assumes "get_page w url REQUEST_TIMEOUT True (http_client p, rt) = (Inr None, c, rt1)"
  shows "\<exists>p' t' rt'. parse_forum_iteration w url (p, t, rt) = (Continue, p', t', rt') \<and>
     current_url t' = None \<and> failed_pages t' = failed_pages t @ [page_count t + 1] \<and>
     consecutive_failures p' = consecutive_failures p + 1 \<and>
     total_failures p' = total_failures p + 1 \<and> http_client p' = c \<and>
     parse_forum_loop w (p', t', rt') = (p', t', rt')"
  using assms
  by (simp add: parse_forum_iteration_def parse_forum_try_def handle_page_failure_def
      try_next_page_url_def Let_def)

lemma parse_topic_absent:
  assumes "get_page w url REQUEST_TIMEOUT True (http_client p, rt) = (Inr None, c, rt1)"
  shows "\<exists>p' t' rt'. parse_topic_iteration w url (p, t, rt) = (Continue, p', t', rt') \<and>
     current_url t' = None \<and> failed_pages t' = failed_pages t @ [page_count t + 1] \<and>
     consecutive_failures p' = consecutive_failures p + 1 \<and>
     total_failures p' = total_failures p + 1 \<and> http_client p' = c \<and>
     parse_topic_loop w (p', t', rt') = (p', t', rt')"
  using assms
  by (simp add: parse_topic_iteration_def parse_topic_try_def handle_page_failure_def
      try_next_topic_page_url_def Let_def)

lemma parse_topic_streaming_absent:
  assumes "get_page w url REQUEST_TIMEOUT True (http_client p, rt) = (Inr None, c, rt1)"
  shows "\<exists>p' t' rt'. parse_topic_streaming_iteration w url (p, t, rt) = (Continue, p', t', rt') \<and>
     current_url t' = None \<and> failed_pages t' = failed_pages t @ [page_count t + 1] \<and>
     consecutive_failures p' = consecutive_failures p + 1 \<and>
     total_failures p' = total_failures p + 1 \<and> http_client p' = c \<and>
     parse_topic_streaming_loop w (p', t', rt') = (p', t', rt')"
  using assms
  by (simp add: parse_topic_streaming_iteration_def parse_topic_streaming_try_def handle_page_failure_def
      try_next_topic_page_url_def Let_def)

text \<open>
  C4, as amended.  When \<open>get_page\<close> returns \<open>None\<close> for a page, the iteration records
  the failure (the page number in \<open>failed_pages\<close>, \<open>consecutive_failures\<close> and
  \<open>total_failures\<close> incremented), sets \<open>current_url\<close> to \<open>None\<close>, since without a
  page there is no next URL to recover, and continues to the loop test, which then ends
  the traversal: whether or not the threshold is reached.  This holds for the listing, the
  topic and the streaming topic traversal.
\<close>

theorem absent_page_ends_traversal:
  "(get_page w url REQUEST_TIMEOUT True (http_client p, rt) = (Inr None, c, rt1) \<longrightarrow>
      (\<exists>p' t' rt'. parse_forum_iteration w url (p, t, rt) = (Continue, p', t', rt') \<and>
         current_url t' = None \<and> failed_pages t' = failed_pages t @ [page_count t + 1] \<and>
         consecutive_failures p' = consecutive_failures p + 1 \<and>
         total_failures p' = total_failures p + 1 \<and> http_client p' = c \<and>
         parse_forum_loop w (p', t', rt') = (p', t', rt'))) \<and>
   (get_page w url REQUEST_TIMEOUT True (http_client p, rt) = (Inr None, c, rt1) \<longrightarrow>
      (\<exists>p' t' rt'. parse_topic_iteration w url (p, u, rt) = (Continue, p', t', rt') \<and>
         current_url t' = None \<and> failed_pages t' = failed_pages u @ [page_count u + 1] \<and>
         consecutive_failures p' = consecutive_failures p + 1 \<and>
         total_failures p' = total_failures p + 1 \<and> http_client p' = c \<and>
         parse_topic_loop w (p', t', rt') = (p', t', rt'))) \<and>
   (get_page w url REQUEST_TIMEOUT True (http_client p, rt) = (Inr None, c, rt1) \<longrightarrow>
      (\<exists>p' t' rt'. parse_topic_streaming_iteration w url (p, v, rt) = (Continue, p', t', rt') \<and>
         current_url t' = None \<and> failed_pages t' = failed_pages v @ [page_count v + 1] \<and>
         consecutive_failures p' = consecutive_failures p + 1 \<and>
         total_failures p' = total_failures p + 1 \<and> http_client p' = c \<and>
         parse_topic_streaming_loop w (p', t', rt') = (p', t', rt')))"
  using parse_forum_absent [of w url p rt c rt1 t] parse_topic_absent [of w url p rt c rt1 u]
    parse_topic_streaming_absent [of w url p rt c rt1 v]
  by blast

theorem absent_page_ends_traversal_witness:
  "fst (get_page timeout_world listing_url REQUEST_TIMEOUT True
         (http_client new_VinskiyForumParser, new_runtime)) = Inr None \<and>
   fst (parse_forum_iteration timeout_world listing_url
         (new_VinskiyForumParser, start_traversal [] listing_url, new_runtime)) = Continue \<and>
   current_url (fst (snd (snd (parse_forum_iteration timeout_world listing_url
         (new_VinskiyForumParser, start_traversal [] listing_url, new_runtime))))) = None \<and>
   fst (parse_topic_iteration timeout_world listing_url
         (new_VinskiyForumParser, start_traversal [] listing_url, new_runtime)) = Continue \<and>
   current_url (fst (snd (snd (parse_topic_iteration timeout_world listing_url
         (new_VinskiyForumParser, start_traversal [] listing_url, new_runtime))))) = None \<and>
   fst (parse_topic_streaming_iteration timeout_world listing_url
         (new_VinskiyForumParser, start_traversal 0 listing_url, new_runtime)) = Continue \<and>
   current_url (fst (snd (snd (parse_topic_streaming_iteration timeout_world listing_url
         (new_VinskiyForumParser, start_traversal 0 listing_url, new_runtime))))) = None"
proof -
  let ?p = "new_VinskiyForumParser :: nat VinskiyForumParser"
  let ?t = "start_traversal [] listing_url :: (nat, (string \<times> string) list) traversal"
  let ?u = "start_traversal [] listing_url :: (nat, Post list) traversal"
  let ?v = "start_traversal 0 listing_url :: (nat, int) traversal"
  let ?g = "get_page timeout_world listing_url REQUEST_TIMEOUT True (http_client ?p, new_runtime)"
  have absent: "fst ?g = Inr None"
    by (simp add: fetch_defs new_VinskiyForumParser_def timeout_world_def listing_url_def)
  then have g: "?g = (Inr None, fst (snd ?g), snd (snd ?g))"
    by (metis prod.collapse)
  from absent_page_ends_traversal
    [of timeout_world listing_url ?p new_runtime "fst (snd ?g)" "snd (snd ?g)" ?t ?u ?v] g
  obtain p' t' rt' q' u' rt2 r' v' rt3 where
    "parse_forum_iteration timeout_world listing_url (?p, ?t, new_runtime) = (Continue, p', t', rt')"
    "current_url t' = None"
    "parse_topic_iteration timeout_world listing_url (?p, ?u, new_runtime) = (Continue, q', u', rt2)"
    "current_url u' = None"
    "parse_topic_streaming_iteration timeout_world listing_url (?p, ?v, new_runtime)
       = (Continue, r', v', rt3)"
    "current_url v' = None"
    by blast
  with absent show ?thesis by simp
qed

section \<open>Properties of the adaptive delay\<close>

text \<open>
  An iteration of the listing traversal that continues without having recorded a failure
  has slept, last of all, the adaptive delay of the page it has just read, computed from
  the counter of consecutive failures it leaves, times one plus the jitter drawn last.
\<close>

lemma parse_forum_try_sleeps:
  "parse_forum_try w url (p, t, rt) = (Inr Continue, p', t', rt') \<Longrightarrow>
   failed_pages t' = failed_pages t \<Longrightarrow>
   slept rt' \<noteq> [] \<and> 0 < randoms_drawn rt' \<and>
   last (slept rt') =
     max 0 (calculate_adaptive_delay p' (page_count t') *
            (1 + (- 0.1 + 0.2 * random_random w (randoms_drawn rt' - 1))))"
  unfolding parse_forum_try_def
  by (auto simp: Let_def sleep_with_jitter_def random_uniform_def time_sleep_def
      split: prod.splits sum.splits option.splits if_splits
      dest: handle_page_failure_fields)

lemma parse_forum_iteration_sleeps:
  assumes "parse_forum_iteration w url (p, t, rt) = (Continue, p', t', rt')"
    and "failed_pages t' = failed_pages t"
  shows "slept rt' \<noteq> [] \<and> 0 < randoms_drawn rt' \<and>
   last (slept rt') =
     max 0 (calculate_adaptive_delay p' (page_count t') *
            (1 + (- 0.1 + 0.2 * random_random w (randoms_drawn rt' - 1))))"
proof (cases "parse_forum_try w url (p, t\<lparr>page_count := page_count t + 1\<rparr>, rt)")
  case (fields r p1 t1 rt1)
  show ?thesis
  proof (cases r)
    case (Inr flow)
    with fields assms(1)
    have "parse_forum_try w url (p, t\<lparr>page_count := page_count t + 1\<rparr>, rt)
        = (Inr Continue, p', t', rt')"
      by (simp add: parse_forum_iteration_def)
    from parse_forum_try_sleeps [OF this] assms(2) show ?thesis by simp
  next
    case (Inl ec)
    obtain e current where ec: "ec = (e, current)" by (cases ec)
    from parse_forum_try_Inl_fields [OF fields [unfolded Inl ec]]
    have f: "failed_pages t1 = failed_pages t" by simp
    with fields Inl ec assms show ?thesis
      by (auto simp: parse_forum_iteration_def split: prod.splits if_splits
          dest: handle_page_failure_fields)
  qed
qed

text \<open>
  C9, as amended.  For every page number and every value of \<open>consecutive_failures\<close> the
  adaptive delay is the base delay \<open>DELAY_BETWEEN_REQUESTS\<close>, scaled up by 50 percent
  for each consecutive failure when there are failures, scaled down by 20 percent when
  there is none and the number of the page is above 5, whatever happened on the pages
  before, and never below one half.  With the base delay of one second this is
  \<open>1 + consecutive_failures / 2\<close>, \<open>0.8\<close> or \<open>1\<close>.  The listing traversal uses it
  when it goes on from a page without a failure: what it sleeps then is this delay, for
  the counter it leaves and the number of the page it has read, times one plus a jitter
  of at most ten percent.
\<close>

theorem adaptive_delay_value:
  "calculate_adaptive_delay p page_num =
     max (1 / 2)
       (if consecutive_failures p > 0
        then DELAY_BETWEEN_REQUESTS * (1 + 50 / 100 * real_of_int (consecutive_failures p))
        else if consecutive_failures p = 0 \<and> page_num > 5
        then DELAY_BETWEEN_REQUESTS * (1 - 20 / 100)
        else DELAY_BETWEEN_REQUESTS) \<and>
   calculate_adaptive_delay p page_num =
     (if consecutive_failures p > 0 then 1 + real_of_int (consecutive_failures p) / 2
      else if consecutive_failures p = 0 \<and> page_num > 5 then 4 / 5
      else 1) \<and>
   1 / 2 \<le> calculate_adaptive_delay p page_num \<and>
   (parse_forum_iteration w url (q, t, rt) = (Continue, q', t', rt') \<and>
    failed_pages t' = failed_pages t \<longrightarrow>
      page_count t' = page_count t + 1 \<and>
      slept rt' \<noteq> [] \<and> 0 < randoms_drawn rt' \<and>
      last (slept rt') =
        max 0 (calculate_adaptive_delay q' (page_count t') *
               (1 + (- 0.1 + 0.2 * random_random w (randoms_drawn rt' - 1)))))"
proof (intro conjI)
  show "calculate_adaptive_delay p page_num =
     max (1 / 2)
       (if consecutive_failures p > 0
        then DELAY_BETWEEN_REQUESTS * (1 + 50 / 100 * real_of_int (consecutive_failures p))
        else if consecutive_failures p = 0 \<and> page_num > 5
        then DELAY_BETWEEN_REQUESTS * (1 - 20 / 100)
        else DELAY_BETWEEN_REQUESTS)"
    by (simp add: calculate_adaptive_delay_def DELAY_BETWEEN_REQUESTS_def Let_def max_def)
next
  show "calculate_adaptive_delay p page_num =
     (if consecutive_failures p > 0 then 1 + real_of_int (consecutive_failures p) / 2
      else if consecutive_failures p = 0 \<and> page_num > 5 then 4 / 5
      else 1)"
    by (simp add: calculate_adaptive_delay_def DELAY_BETWEEN_REQUESTS_def Let_def max_def)
next
  show "1 / 2 \<le> calculate_adaptive_delay p page_num"
    by (simp add: calculate_adaptive_delay_def DELAY_BETWEEN_REQUESTS_def Let_def max_def)
next
  show "parse_forum_iteration w url (q, t, rt) = (Continue, q', t', rt') \<and>
    failed_pages t' = failed_pages t \<longrightarrow>
      page_count t' = page_count t + 1 \<and>
      slept rt' \<noteq> [] \<and> 0 < randoms_drawn rt' \<and>
      last (slept rt') =
        max 0 (calculate_adaptive_delay q' (page_count t') *
               (1 + (- 0.1 + 0.2 * random_random w (randoms_drawn rt' - 1))))"
  proof (rule impI)
    assume h: "parse_forum_iteration w url (q, t, rt) = (Continue, q', t', rt') \<and>
      failed_pages t' = failed_pages t"
    then have it: "parse_forum_iteration w url (q, t, rt) = (Continue, q', t', rt')"
      and fp: "failed_pages t' = failed_pages t"
      by blast+
    from parse_forum_iteration_page_count [OF it] parse_forum_iteration_sleeps [OF it fp]
    show "page_count t' = page_count t + 1 \<and>
      slept rt' \<noteq> [] \<and> 0 < randoms_drawn rt' \<and>
      last (slept rt') =
        max 0 (calculate_adaptive_delay q' (page_count t') *
               (1 + (- 0.1 + 0.2 * random_random w (randoms_drawn rt' - 1))))"
      by blast
  qed
qed

text \<open>
  The sixth page of a listing, read without a failure before it and with a topic on it:
  the traversal goes on and sleeps four fifths of a second.
\<close>

theorem adaptive_delay_value_witness:
  "fst (parse_forum_iteration recovering_world listing_url
     (new_VinskiyForumParser, (start_traversal [] listing_url)\<lparr>page_count := 5\<rparr>,
      new_runtime\<lparr>requests_sent := 4\<rparr>)) = Continue \<and>
   failed_pages (fst (snd (snd (parse_forum_iteration recovering_world listing_url
     (new_VinskiyForumParser, (start_traversal [] listing_url)\<lparr>page_count := 5\<rparr>,
      new_runtime\<lparr>requests_sent := 4\<rparr>))))) = [] \<and>
   page_count (fst (snd (snd (parse_forum_iteration recovering_world listing_url
     (new_VinskiyForumParser, (start_traversal [] listing_url)\<lparr>page_count := 5\<rparr>,
      new_runtime\<lparr>requests_sent := 4\<rparr>))))) = 6 \<and>
   last (slept (snd (snd (snd (parse_forum_iteration recovering_world listing_url
     (new_VinskiyForumParser, (start_traversal [] listing_url)\<lparr>page_count := 5\<rparr>,
      new_runtime\<lparr>requests_sent := 4\<rparr>)))))) = 4 / 5"
proof -
  let ?p = "new_VinskiyForumParser :: nat VinskiyForumParser"
  let ?t = "(start_traversal [] listing_url)\<lparr>page_count := 5\<rparr>
            :: (nat, (string \<times> string) list) traversal"
  let ?rt = "new_runtime\<lparr>requests_sent := 4\<rparr>"
  define a where "a = parse_forum_iteration recovering_world listing_url (?p, ?t, ?rt)"
  have a: "fst a = Continue" "failed_pages (fst (snd (snd a))) = failed_pages ?t"
    "consecutive_failures (fst (snd a)) = 0"
    "random_random recovering_world (randoms_drawn (snd (snd (snd a))) - 1) = 1 / 2"
    unfolding a_def
    by (simp_all add: recovering_world_def listing_url_def traversal_defs fetch_defs)
  have "a = (Continue, fst (snd a), fst (snd (snd a)), snd (snd (snd a)))"
    using a(1) by (simp add: prod_eq_iff)
  then have eq: "parse_forum_iteration recovering_world listing_url (?p, ?t, ?rt) =
      (Continue, fst (snd a), fst (snd (snd a)), snd (snd (snd a)))"
    unfolding a_def [symmetric] .
  note inst = adaptive_delay_value
    [of "fst (snd a)" 6 recovering_world listing_url ?p ?t ?rt "fst (snd a)"
        "fst (snd (snd a))" "snd (snd (snd a))"]
  from inst a(3) have d: "calculate_adaptive_delay (fst (snd a)) 6 = 4 / 5"
    by simp
  from inst eq a(2)
  have s: "page_count (fst (snd (snd a))) = page_count ?t + 1"
    "last (slept (snd (snd (snd a)))) =
       max 0 (calculate_adaptive_delay (fst (snd a)) (page_count (fst (snd (snd a)))) *
              (1 + (- 0.1 + 0.2 * random_random recovering_world
                                    (randoms_drawn (snd (snd (snd a))) - 1))))"
    by blast+
  have pc: "page_count (fst (snd (snd a))) = 6" using s(1) by simp
  have "last (slept (snd (snd (snd a)))) = 4 / 5"
    unfolding s(2) pc d a(4) by simp
  moreover have "failed_pages ?t = []" by (simp add: start_traversal_def)
  ultimately show ?thesis using a(1,2) pc unfolding a_def by simp
qed

text \<open>
  C9 as stated fails.  In a listing whose pages 1 to 4 fail and whose pages 5, 6 and 7 are
  clean, the traversal sleeps twice: one second after page 5, and four fifths of a
  second after page 6, the second clean page.  The delay is scaled down though no five
  consecutive clean pages have been read.
\<close>

theorem delay_scaled_down_after_two_clean_pages:
  "failed_pages (fst (snd (parse_forum_loop recovering_world
      (new_VinskiyForumParser, start_traversal [] listing_url, new_runtime)))) = [1, 2, 3, 4] \<and>
   page_count (fst (snd (parse_forum_loop recovering_world
      (new_VinskiyForumParser, start_traversal [] listing_url, new_runtime)))) = 7 \<and>
   slept (snd (snd (parse_forum_loop recovering_world
      (new_VinskiyForumParser, start_traversal [] listing_url, new_runtime)))) = [1, 4 / 5] \<and>
   clock (snd (snd (parse_forum_loop recovering_world
      (new_VinskiyForumParser, start_traversal [] listing_url, new_runtime)))) = 71 / 20"
  by (simp add: recovering_world_def listing_url_def traversal_defs fetch_defs)

end
